theory Spec2Isabelle
  imports Complex_Main
begin

section \<open>Carousel component: index navigation\<close>

text \<open>
  The carousel keeps \<open>state.index\<close> and \<open>state.direction\<close>; its props are the item
  list and the \<open>wrapNavigation\<close> flag. The index is a JavaScript number: the integers the
  code computes with, and \<open>NaN\<close>, which \<open>x % 0\<close> produces. A number is modelled as
  \<open>int option\<close>, \<open>None\<close> standing for \<open>NaN\<close>.
\<close>

type_synonym jsnum = "int option"

text \<open>JavaScript \<open>a % b\<close> on integers: the sign follows the dividend, \<open>NaN\<close> when \<open>b = 0\<close>.\<close>

definition js_rem :: "jsnum \<Rightarrow> jsnum \<Rightarrow> jsnum" where
  "js_rem a b =
     (case (a, b) of
        (Some x, Some y) \<Rightarrow> (if y = 0 then None else Some (sgn x * (\<bar>x\<bar> mod \<bar>y\<bar>)))
      | _ \<Rightarrow> None)"

definition js_add :: "jsnum \<Rightarrow> jsnum \<Rightarrow> jsnum" where
  "js_add a b = (case (a, b) of (Some x, Some y) \<Rightarrow> Some (x + y) | _ \<Rightarrow> None)"

definition js_sub :: "jsnum \<Rightarrow> jsnum \<Rightarrow> jsnum" where
  "js_sub a b = (case (a, b) of (Some x, Some y) \<Rightarrow> Some (x - y) | _ \<Rightarrow> None)"

text \<open>\<open>Math.min\<close> and \<open>Math.max\<close>: \<open>NaN\<close> if either argument is.\<close>

definition js_min :: "jsnum \<Rightarrow> jsnum \<Rightarrow> jsnum" where
  "js_min a b = (case (a, b) of (Some x, Some y) \<Rightarrow> Some (min x y) | _ \<Rightarrow> None)"

definition js_max :: "jsnum \<Rightarrow> jsnum \<Rightarrow> jsnum" where
  "js_max a b = (case (a, b) of (Some x, Some y) \<Rightarrow> Some (max x y) | _ \<Rightarrow> None)"

text \<open>Comparisons with \<open>NaN\<close> are false.\<close>

definition js_less :: "jsnum \<Rightarrow> jsnum \<Rightarrow> bool" where
  "js_less a b = (case (a, b) of (Some x, Some y) \<Rightarrow> x < y | _ \<Rightarrow> False)"

datatype direction = Forward | Backward

record event =
  propagationStopped :: bool

record 'a carousel =
  items :: "'a list"
  wrapNavigation :: bool
  index :: jsnum
  direction :: direction

definition items_length :: "'a carousel \<Rightarrow> jsnum" where
  "items_length c = Some (int (length (items c)))"

text \<open>\<open>getInitialState\<close>: index 0, direction forward.\<close>

definition getInitialState :: "'a list \<Rightarrow> bool \<Rightarrow> 'a carousel" where
  "getInitialState its wrap =
     \<lparr>items = its, wrapNavigation = wrap, index = Some 0, direction = Forward\<rparr>"

text \<open>
  \<open>_gotoItem\<close>: sets the index, the direction from the comparison of the old index with
  the new one, and stops the propagation of the event.
\<close>

definition gotoItem :: "jsnum \<Rightarrow> event \<Rightarrow> 'a carousel \<Rightarrow> 'a carousel \<times> event" where
  "gotoItem i ev c =
     (c\<lparr>index := i, direction := (if js_less i (index c) then Backward else Forward)\<rparr>,
      ev\<lparr>propagationStopped := True\<rparr>)"

definition nextItem :: "event \<Rightarrow> 'a carousel \<Rightarrow> 'a carousel \<times> event" where
  "nextItem ev c =
     (let nextIndex =
        (if wrapNavigation c
         then js_rem (js_add (index c) (Some 1)) (items_length c)
         else js_min (js_add (index c) (Some 1)) (js_sub (items_length c) (Some 1)))
      in gotoItem nextIndex ev c)"

definition prevItem :: "event \<Rightarrow> 'a carousel \<Rightarrow> 'a carousel \<times> event" where
  "prevItem ev c =
     (let prevIndex = js_sub (index c) (Some 1);
          prevIndex' =
            (if wrapNavigation c \<and> js_less prevIndex (Some 0)
             then js_add (items_length c) prevIndex
             else js_max prevIndex (Some 0))
      in gotoItem prevIndex' ev c)"

text \<open>The invariant: the index is an integer within the range of the items.\<close>

definition index_in_range :: "'a carousel \<Rightarrow> bool" where
  "index_in_range c =
     (case index c of None \<Rightarrow> False | Some i \<Rightarrow> 0 \<le> i \<and> i < int (length (items c)))"

section \<open>Bounds store\<close>

text \<open>
  The store caches, per document, a map from layer IDs to bounds. A payload of
  \<open>DOCUMENT_UPDATED\<close> or \<open>RESET_DOCUMENTS\<close> is a list of document objects, each with the raw
  document descriptor and the array of its layer descriptors. A layer descriptor has a
  \<open>layerID\<close> and further properties (the extension of the record). The \<open>Bounds\<close> model is
  not part of these sources: \<open>new Bounds(layerObj)\<close> is the constructor applied to the
  descriptor. The IDs of documents and layers are numbers; the two caches are objects
  keyed by them, modelled as maps.
\<close>

datatype jsError = TypeError | RangeError | Error string

record rawDocument =
  documentID :: nat

record layerObj =
  layerID :: nat

record 'l docObj =
  document :: rawDocument
  layers :: "'l list"

record 'l payload =
  documents :: "'l docObj list"

datatype 'l bounds = Bounds 'l

record 'l boundsStore =
  layerBounds :: "nat \<rightharpoonup> (nat \<rightharpoonup> 'l bounds)"
  documentBounds :: "nat \<rightharpoonup> 'l bounds"
  emitted :: "string list"

datatype documentEvent = DOCUMENT_UPDATED | CURRENT_DOCUMENT_UPDATED | RESET_DOCUMENTS

text \<open>\<open>initialize\<close>: both caches start empty; nothing has been emitted.\<close>

definition initialize :: "'l boundsStore" where
  "initialize = \<lparr>layerBounds = Map.empty, documentBounds = Map.empty, emitted = []\<rparr>"

definition getDocumentBounds :: "'l boundsStore \<Rightarrow> nat \<Rightarrow> 'l bounds option" where
  "getDocumentBounds s docID = documentBounds s docID"

text \<open>
  \<open>getLayerBounds\<close> reads \<open>this._layerBounds[documentID][layerID]\<close>: when the store has no
  entry for the document, the inner read is a property access on \<open>undefined\<close>, a
  \<open>TypeError\<close>. A missing layer is \<open>undefined\<close> (\<open>None\<close>).
\<close>

definition getLayerBounds ::
  "'l boundsStore \<Rightarrow> nat \<Rightarrow> nat \<Rightarrow> jsError + 'l bounds option" where
  "getLayerBounds s docID lID =
     (case layerBounds s docID of
        None \<Rightarrow> Inl TypeError
      | Some boundsMap \<Rightarrow> Inr (boundsMap lID))"

text \<open>The \<open>reduce\<close> over the layer array, from the empty object.\<close>

definition layerBoundsMap ::
  "'a layerObj_scheme list \<Rightarrow> (nat \<rightharpoonup> 'a layerObj_scheme bounds)" where
  "layerBoundsMap layerArray =
     fold (\<lambda>lObj boundsMap. boundsMap(layerID lObj \<mapsto> Bounds lObj)) layerArray Map.empty"

text \<open>The body of the \<open>forEach\<close> over the documents of the payload.\<close>

definition resetOneDocument ::
  "'a layerObj_scheme docObj \<Rightarrow> 'a layerObj_scheme boundsStore
     \<Rightarrow> 'a layerObj_scheme boundsStore" where
  "resetOneDocument dObj s =
     s\<lparr>layerBounds := (layerBounds s)
          (documentID (document dObj) \<mapsto> layerBoundsMap (layers dObj))\<rparr>"

definition resetDocumentLayerBounds ::
  "'a layerObj_scheme payload \<Rightarrow> 'a layerObj_scheme boundsStore
     \<Rightarrow> 'a layerObj_scheme boundsStore" where
  "resetDocumentLayerBounds p s =
     (let s' = fold resetOneDocument (documents p) s
      in s'\<lparr>emitted := emitted s' @ [''change'']\<rparr>)"

text \<open>
  \<open>bindActions\<close>: the handler of each event. \<open>CURRENT_DOCUMENT_UPDATED\<close> is bound to
  \<open>this._updateDocumentLayers\<close>, which the store does not define: it has no handler.
\<close>

definition boundAction ::
  "documentEvent \<Rightarrow> ('a layerObj_scheme payload \<Rightarrow> 'a layerObj_scheme boundsStore
     \<Rightarrow> 'a layerObj_scheme boundsStore) option" where
  "boundAction ev =
     (case ev of
        DOCUMENT_UPDATED \<Rightarrow> Some resetDocumentLayerBounds
      | CURRENT_DOCUMENT_UPDATED \<Rightarrow> None
      | RESET_DOCUMENTS \<Rightarrow> Some resetDocumentLayerBounds)"

text \<open>The store processes an event with its handler; an event without one leaves it as it is.\<close>

definition handleAction ::
  "documentEvent \<Rightarrow> 'a layerObj_scheme payload \<Rightarrow> 'a layerObj_scheme boundsStore
     \<Rightarrow> 'a layerObj_scheme boundsStore" where
  "handleAction ev p s = (case boundAction ev of None \<Rightarrow> s | Some h \<Rightarrow> h p s)"

fun handleActions ::
  "(documentEvent \<times> 'a layerObj_scheme payload) list \<Rightarrow> 'a layerObj_scheme boundsStore
     \<Rightarrow> 'a layerObj_scheme boundsStore" where
  "handleActions [] s = s"
| "handleActions ((ev, p) # rest) s = handleActions rest (handleAction ev p s)"

text \<open>The IDs of the documents of a payload, and of the payloads of the handled events.\<close>

definition payloadDocumentIDs :: "'l payload \<Rightarrow> nat list" where
  "payloadDocumentIDs p = map (\<lambda>dObj. documentID (document dObj)) (documents p)"

fun processedDocumentIDs :: "(documentEvent \<times> 'l payload) list \<Rightarrow> nat set" where
  "processedDocumentIDs [] = {}"
| "processedDocumentIDs ((ev, p) # rest) =
     (if ev = DOCUMENT_UPDATED \<or> ev = RESET_DOCUMENTS
      then set (payloadDocumentIDs p) \<union> processedDocumentIDs rest
      else processedDocumentIDs rest)"

section \<open>Theme: the root font size selected by the media queries\<close>

text \<open>
  The style sheet sets the font size of \<open>html\<close> to \<open>@base-10\<close> and then, in nine media
  queries, to one of the base sizes. A query holds a minimum device pixel ratio, a minimum
  device width and, for most, a maximum device width (in px). All the rules have the
  same selector, so among the rules that match the last one in the source wins. Sizes
  are percentages.
\<close>

record mediaRule =
  minDevicePixelRatio :: rat
  minDeviceWidth :: nat
  maxDeviceWidth :: "nat option"
  fontSize :: rat

definition base_8 :: rat where "base_8 = 50"
definition base_9 :: rat where "base_9 = 563 / 10"
definition base_10 :: rat where "base_10 = 625 / 10"
definition base_11 :: rat where "base_11 = 688 / 10"
definition base_12 :: rat where "base_12 = 75"

definition htmlMediaRules :: "mediaRule list" where
  "htmlMediaRules =
    [\<lparr>minDevicePixelRatio = 1, minDeviceWidth = 801, maxDeviceWidth = Some 1280,
       fontSize = base_8\<rparr>,
     \<lparr>minDevicePixelRatio = 1, minDeviceWidth = 1281, maxDeviceWidth = Some 1440,
       fontSize = base_8\<rparr>,
     \<lparr>minDevicePixelRatio = 1, minDeviceWidth = 1441, maxDeviceWidth = Some 1680,
       fontSize = base_10\<rparr>,
     \<lparr>minDevicePixelRatio = 1, minDeviceWidth = 1681, maxDeviceWidth = None,
       fontSize = base_10\<rparr>,
     \<lparr>minDevicePixelRatio = 2, minDeviceWidth = 801, maxDeviceWidth = Some 1280,
       fontSize = base_8\<rparr>,
     \<lparr>minDevicePixelRatio = 2, minDeviceWidth = 1281, maxDeviceWidth = Some 1440,
       fontSize = base_8\<rparr>,
     \<lparr>minDevicePixelRatio = 2, minDeviceWidth = 1441, maxDeviceWidth = Some 1680,
       fontSize = base_9\<rparr>,
     \<lparr>minDevicePixelRatio = 2, minDeviceWidth = 1681, maxDeviceWidth = Some 2560,
       fontSize = base_10\<rparr>,
     \<lparr>minDevicePixelRatio = 2, minDeviceWidth = 2561, maxDeviceWidth = None,
       fontSize = base_11\<rparr>]"

definition mediaMatches :: "mediaRule \<Rightarrow> rat \<Rightarrow> nat \<Rightarrow> bool" where
  "mediaMatches r ratio width \<longleftrightarrow>
     minDevicePixelRatio r \<le> ratio \<and> minDeviceWidth r \<le> width
     \<and> (case maxDeviceWidth r of None \<Rightarrow> True | Some m \<Rightarrow> width \<le> m)"

text \<open>The cascade: each matching rule, in source order, overrides the size so far.\<close>

definition cascade :: "mediaRule list \<Rightarrow> rat \<Rightarrow> nat \<Rightarrow> rat \<Rightarrow> rat" where
  "cascade rules ratio width initial =
     fold (\<lambda>r current. if mediaMatches r ratio width then fontSize r else current)
       rules initial"

definition htmlFontSize :: "rat \<Rightarrow> nat \<Rightarrow> rat" where
  "htmlFontSize ratio width = cascade htmlMediaRules ratio width base_10"

section \<open>JavaScript values\<close>

text \<open>
  JavaScript values, as far as the actions and the menus use them: payloads of events,
  results of host calls and the raw JSON of the menus.
\<close>

datatype jsval =
    VUndefined
  | VNull
  | VBool bool
  | VNum int
  | VStr string
  | VList "jsval list"
  | VObj "(string \<times> jsval) list"

text \<open>
  \<open>value[key]\<close>: the property of an object, \<open>undefined\<close> when the object has none;
  \<open>undefined\<close> on an array, a number, a string and a boolean (the keys read here are
  names, never an index or \<open>length\<close>); a \<open>TypeError\<close> on \<open>undefined\<close> and \<open>null\<close>.
\<close>

fun getProp :: "jsval \<Rightarrow> string \<Rightarrow> jsError + jsval" where
  "getProp VUndefined k = Inl TypeError"
| "getProp VNull k = Inl TypeError"
| "getProp (VObj kvs) k = Inr (case map_of kvs k of None \<Rightarrow> VUndefined | Some v \<Rightarrow> v)"
| "getProp v k = Inr VUndefined"

text \<open>
  \<open>descriptor.hasOwnProperty(key)\<close> for a key that is a name: a \<open>TypeError\<close> on
  \<open>undefined\<close> and \<open>null\<close>, and on an object whose own property \<open>hasOwnProperty\<close> hides
  the method (a JSON value is never a function); false on arrays, strings, numbers and
  booleans.
\<close>

fun hasOwnProperty :: "jsval \<Rightarrow> string \<Rightarrow> jsError + bool" where
  "hasOwnProperty VUndefined k = Inl TypeError"
| "hasOwnProperty VNull k = Inl TypeError"
| "hasOwnProperty (VObj kvs) k =
     (if ''hasOwnProperty'' \<in> fst ` set kvs then Inl TypeError else Inr (k \<in> fst ` set kvs))"
| "hasOwnProperty v k = Inr False"

text \<open>The truth of a value in a condition.\<close>

fun truthy :: "jsval \<Rightarrow> bool" where
  "truthy VUndefined = False"
| "truthy VNull = False"
| "truthy (VBool b) = b"
| "truthy (VNum n) = (n \<noteq> 0)"
| "truthy (VStr s) = (s \<noteq> [])"
| "truthy v = True"

text \<open>
  \<open>object[key] = value\<close> on the properties of an object: the property takes the value
  where it is, and a new property comes last.
\<close>

fun setProp :: "(string \<times> jsval) list \<Rightarrow> string \<Rightarrow> jsval \<Rightarrow> (string \<times> jsval) list" where
  "setProp [] k v = [(k, v)]"
| "setProp (p # ps) k v = (if fst p = k then (k, v) # ps else p # setProp ps k v)"

text \<open>\<open>n.toString()\<close> of a natural number: its decimal digits.\<close>

definition digitChar :: "nat \<Rightarrow> char" where
  "digitChar d = ''0123456789'' ! d"

function showNat :: "nat \<Rightarrow> string" where
  "showNat n = (if n < 10 then [digitChar n] else showNat (n div 10) @ [digitChar (n mod 10)])"
  by pat_completeness auto
termination
  by (relation "measure (\<lambda>n. n)") auto

declare showNat.simps [simp del]

text \<open>A loop whose body may throw: the first error ends it.\<close>

fun forEachE :: "('a \<Rightarrow> 's \<Rightarrow> jsError + 's) \<Rightarrow> 'a list \<Rightarrow> 's \<Rightarrow> jsError + 's" where
  "forEachE f [] s = Inr s"
| "forEachE f (x # xs) s = (case f x s of Inl e \<Rightarrow> Inl e | Inr s' \<Rightarrow> forEachE f xs s')"

lemma forEachE_cong [fundef_cong]:
  "xs = ys \<Longrightarrow> s = t \<Longrightarrow> (\<And>x u. x \<in> set ys \<Longrightarrow> f x u = g x u) \<Longrightarrow>
   forEachE f xs s = forEachE g ys t"
proof (induction ys arbitrary: xs s t)
  case Nil
  then show ?case by simp
next
  case (Cons y ys)
  then show ?case by (auto split: sum.splits)
qed

text \<open>
  The collections of Lodash (\<open>_.forEach\<close>, \<open>_.pluck\<close>). The library takes a value for
  an array when its \<open>length\<close> is a number that is a length: an integer from 0 to
  \<open>2^53 - 1\<close>. So an object with such a \<open>length\<close> property is iterated like an array: the
  callback gets its properties \<open>0\<close>, ..., \<open>length - 1\<close>, \<open>undefined\<close> where the object has
  none, and no other property.
\<close>

definition arrayLikeLength :: "(string \<times> jsval) list \<Rightarrow> nat option" where
  "arrayLikeLength kvs =
     (case map_of kvs ''length'' of
        Some (VNum n) \<Rightarrow> (if 0 \<le> n \<and> n \<le> 9007199254740991 then Some (nat n) else None)
      | _ \<Rightarrow> None)"

text \<open>
  What \<open>_.forEach(collection, callback)\<close> passes to the callback: the elements of an
  array and the characters of a string with their indices, the indexed properties of an
  object that has a length, the properties of any other object in enumeration order,
  and nothing for any other value. An index is a number, written here in decimal, as it
  is in the ID that the callback builds from a prefix and the index.
\<close>

fun forEachEntries :: "jsval \<Rightarrow> (string \<times> jsval) list" where
  "forEachEntries (VObj kvs) =
     (case arrayLikeLength kvs of
        None \<Rightarrow> kvs
      | Some n \<Rightarrow>
          map (\<lambda>i. (showNat i,
                     (case map_of kvs (showNat i) of None \<Rightarrow> VUndefined | Some v \<Rightarrow> v)))
            [0..<n])"
| "forEachEntries (VList xs) = map (\<lambda>(i, x). (showNat i, x)) (enumerate 0 xs)"
| "forEachEntries (VStr s) = map (\<lambda>(i, c). (showNat i, VStr [c])) (enumerate 0 s)"
| "forEachEntries v = []"

text \<open>
  \<open>_.pluck(collection, key)\<close>: the property of every value that \<open>_.forEach\<close> would
  visit, \<open>undefined\<close> for a value that is \<open>undefined\<close> or \<open>null\<close>.
\<close>

definition pluckElement :: "string \<Rightarrow> jsval \<Rightarrow> jsval" where
  "pluckElement k v = (case getProp v k of Inl e \<Rightarrow> VUndefined | Inr x \<Rightarrow> x)"

definition pluck :: "jsval \<Rightarrow> string \<Rightarrow> jsval list" where
  "pluck collection k = map (\<lambda>(i, v). pluckElement k v) (forEachEntries collection)"

section \<open>Layer actions\<close>

text \<open>
  The models of a layer and of a document are not part of these sources; the actions read
  the fields below. The derived properties of the layer structure (\<open>selected\<close>,
  \<open>allSelected\<close>, \<open>selectedLayersDeletable\<close>) are data of the model.
\<close>

record Layer =
  id :: nat
  isBackground :: bool

record LayerStructure =
  all :: "Layer list"
  selected :: "Layer list"
  allSelected :: "Layer list"
  selectedLayersDeletable :: bool

record Document =
  id :: nat
  name :: string
  layers :: LayerStructure

text \<open>
  The host's library (\<open>adapter/lib/document\<close>, \<open>adapter/lib/layer\<close>) builds references
  and play objects; it is outside this repository, and each of its calls is a
  constructor here, holding the arguments of the call.
\<close>

datatype reference =
    DocumentRefById nat
  | LayerRefById nat
  | LayerRefByIndex nat
  | LayerRefCurrent

datatype playObject =
    LayerSelect "reference list" bool "string option"
  | LayerRename "reference list" string
  | LayerDeselectAll
  | LayerDelete reference
  | LayerGroupSelected
  | LayerUnlockBackground nat
  | LayerSetLocking "reference list" bool
  | LayerShow "reference list"
  | LayerHide "reference list"
  | LayerSetOpacity "reference list" int
  | LayerReorder "reference list" reference
  | LayerSetBlendMode "reference list" string

datatype layerEvent =
    SELECT_LAYERS_BY_ID
  | SELECT_LAYERS_BY_INDEX
  | RENAME_LAYER
  | DELETE_SELECTED
  | GROUP_SELECTED
  | LOCK_CHANGED
  | RESET_LAYERS
  | VISIBILITY_CHANGED
  | OPACITY_CHANGED
  | REORDER_LAYERS
  | BLEND_MODE_CHANGED

record historyStateInfo =
  historyName :: string
  historyTarget :: reference

text \<open>
  The arguments of \<open>locking.playWithLockOverride\<close>, a utility of this repository that is
  not part of these sources: the play object or the array of play objects, and the
  options, which are the history state and, for some commands, the paint options of this
  module (\<open>_paintOptions\<close>).
\<close>

datatype playArgument = OnePlayObject playObject | PlayObjects "playObject list"

record paintSettings =
  immediateUpdate :: bool
  quality :: string

definition paintOptionsValue :: paintSettings where
  "paintOptionsValue = \<lparr>immediateUpdate = True, quality = ''draft''\<rparr>"

record playOptions =
  historyStateInfo :: historyStateInfo
  paintOptions :: "paintSettings option"

text \<open>
  What a command does, in the order in which it does it: a dispatch scheduled with
  \<open>process.nextTick\<close>, a dispatch made at once, \<open>descriptor.playObject\<close>,
  \<open>descriptor.getProperty\<close>, \<open>locking.playWithLockOverride\<close> (document, layers, play
  objects, options, and the last argument when the call has one), the transfer to
  \<open>documents.updateDocument\<close>, \<open>descriptor.get\<close>, \<open>descriptor.batchGetProperty\<close>
  (references and property), \<open>descriptor.batchGetProperties\<close> (the pairs of a reference
  and a property, and whether the call continues on errors), \<open>descriptor.addListener\<close>
  (the name of the event) and the transfer to \<open>shortcuts.addShortcut\<close> (the key code; the
  modifiers are none and the function invokes \<open>deleteSelected\<close>).
\<close>

datatype effect =
    NextTickDispatch layerEvent jsval
  | Dispatch layerEvent jsval
  | PlayObject playObject
  | GetProperty reference string
  | PlayWithLockOverride Document "Layer list" playArgument playOptions "bool option"
  | TransferUpdateDocument nat
  | Get reference
  | BatchGetProperty "reference list list" string
  | BatchGetProperties "(reference list \<times> string) list" bool
  | AddListener string
  | TransferAddShortcut nat

text \<open>A promise settles: it resolves with a value or it is rejected.\<close>

datatype outcome = Resolved jsval | Rejected

text \<open>
  The surroundings of a command: how the host settles each call, the current document of
  the application store (\<open>None\<close> for \<open>null\<close>) and the localised name of the history
  state.
\<close>

record host =
  playObjectResult :: "playObject \<Rightarrow> outcome"
  getPropertyResult :: "reference \<Rightarrow> string \<Rightarrow> outcome"
  playWithLockOverrideResult :: "playArgument \<Rightarrow> outcome"
  updateDocumentResult :: "nat \<Rightarrow> outcome"
  getCurrentDocument :: "Document option"
  DELETE_LAYERS :: string

text \<open>
  The rest of the surroundings, for the commands that query the host or take a name or
  a key code from outside: the document descriptor that \<open>descriptor.get\<close> resolves with
  (\<open>None\<close> when the call is rejected), the result of \<open>descriptor.batchGetProperty\<close>, the
  array of values that \<open>descriptor.batchGetProperties\<close> resolves with and, for the call
  that continues on errors, the pair of the array of results and the array of errors;
  how the transfer to \<open>shortcuts.addShortcut\<close> settles; the key codes of the operating
  system and the localised names of the history states.
\<close>

record documentDescriptor = rawDocument +
  numberOfLayers :: nat
  hasBackgroundLayer :: bool

record resources =
  getResult :: "reference \<Rightarrow> documentDescriptor option"
  batchGetPropertyResult :: "reference list list \<Rightarrow> string \<Rightarrow> outcome"
  batchGetPropertiesResult :: "(reference list \<times> string) list \<Rightarrow> jsval list option"
  batchGetPropertiesContinueResult ::
    "(reference list \<times> string) list \<Rightarrow> (jsval list \<times> jsval list) option"
  addShortcutResult :: "nat \<Rightarrow> outcome"
  BACKSPACE :: nat
  DELETE :: nat
  CHANGE_LAYER_OPACITY :: string
  SET_BLEND_MODE :: string

text \<open>
  The calls that leave the module towards the host: those of \<open>descriptor\<close>, and
  \<open>locking.playWithLockOverride\<close>, the utility that is handed the play objects.
\<close>

definition isHostCall :: "effect \<Rightarrow> bool" where
  "isHostCall e =
     (case e of
        PlayObject obj \<Rightarrow> True
      | GetProperty r p \<Rightarrow> True
      | PlayWithLockOverride d ls obj opts f \<Rightarrow> True
      | Get r \<Rightarrow> True
      | BatchGetProperty rs p \<Rightarrow> True
      | BatchGetProperties rs c \<Rightarrow> True
      | _ \<Rightarrow> False)"

definition isPlayObject :: "effect \<Rightarrow> bool" where
  "isPlayObject e = (case e of PlayObject obj \<Rightarrow> True | _ \<Rightarrow> False)"

definition isDispatch :: "effect \<Rightarrow> bool" where
  "isDispatch e =
     (case e of NextTickDispatch ev p \<Rightarrow> True | Dispatch ev p \<Rightarrow> True | _ \<Rightarrow> False)"

text \<open>The layer specification of \<open>select\<close>: one layer or a collection of layers.\<close>

datatype layerSpec = OneLayer Layer | ManyLayers "Layer list"

definition layerList :: "layerSpec \<Rightarrow> Layer list" where
  "layerList spec = (case spec of OneLayer l \<Rightarrow> [l] | ManyLayers ls \<Rightarrow> ls)"

text \<open>\<open>!modifier || modifier === "select"\<close>: no modifier, the empty string, or \<open>select\<close>.\<close>

definition plainSelect :: "string option \<Rightarrow> bool" where
  "plainSelect modifier \<longleftrightarrow>
     modifier = None \<or> modifier = Some '''' \<or> modifier = Some ''select''"

definition selectLayerCommand ::
  "host \<Rightarrow> Document \<Rightarrow> layerSpec \<Rightarrow> string option \<Rightarrow> effect list \<times> outcome" where
  "selectLayerCommand h doc spec modifier =
     (let layerSpec = layerList spec;
          payload = [(''documentID'', VNum (int (Document.id doc)))];
          optimistic =
            (if plainSelect modifier
             then [NextTickDispatch SELECT_LAYERS_BY_ID
                     (VObj (payload @
                        [(''selectedIDs'',
                          VList (map (\<lambda>l. VNum (int (Layer.id l))) layerSpec))]))]
             else []);
          layerRef = DocumentRefById (Document.id doc)
                       # map (\<lambda>l. LayerRefById (Layer.id l)) layerSpec;
          selectObj = LayerSelect layerRef False modifier
      in case playObjectResult h selectObj of
           Rejected \<Rightarrow> (optimistic @ [PlayObject selectObj], Rejected)
         | Resolved r \<Rightarrow>
             (if \<not> plainSelect modifier
              then
                (case getPropertyResult h (DocumentRefById (Document.id doc))
                        ''targetLayers'' of
                   Rejected \<Rightarrow>
                     (optimistic @ [PlayObject selectObj,
                        GetProperty (DocumentRefById (Document.id doc)) ''targetLayers''],
                      Resolved VUndefined)
                 | Resolved targetLayers \<Rightarrow>
                     (optimistic @ [PlayObject selectObj,
                        GetProperty (DocumentRefById (Document.id doc)) ''targetLayers'',
                        Dispatch SELECT_LAYERS_BY_INDEX
                          (VObj (payload @
                             [(''selectedIndices'', VList (pluck targetLayers ''index''))]))],
                      Resolved VUndefined))
              else (optimistic @ [PlayObject selectObj], Resolved VUndefined)))"

definition renameLayerCommand ::
  "host \<Rightarrow> Document \<Rightarrow> Layer \<Rightarrow> string \<Rightarrow> effect list \<times> outcome" where
  "renameLayerCommand h doc layer newName =
     (let payload = VObj [(''documentID'', VNum (int (Document.id doc))),
                          (''layerID'', VNum (int (Layer.id layer))),
                          (''name'', VStr newName)];
          layerRef = [DocumentRefById (Document.id doc), LayerRefById (Layer.id layer)];
          renameObj = LayerRename layerRef newName
      in ([NextTickDispatch RENAME_LAYER payload, PlayObject renameObj],
          playObjectResult h renameObj))"

text \<open>
  The document argument of the next three commands: left out (\<open>undefined\<close>), \<open>null\<close>, or
  a document. Only for \<open>undefined\<close> does the command take the current document of the
  application store; the result is the document that the guard then tests, \<open>None\<close> when
  there is none (\<open>!document\<close>).
\<close>

datatype 'a optionalArgument = ArgUndefined | ArgNull | ArgGiven 'a

definition documentOrCurrent :: "host \<Rightarrow> Document optionalArgument \<Rightarrow> Document option" where
  "documentOrCurrent h doc =
     (case doc of
        ArgUndefined \<Rightarrow> getCurrentDocument h
      | ArgNull \<Rightarrow> None
      | ArgGiven d \<Rightarrow> Some d)"

definition deselectAllLayersCommand ::
  "host \<Rightarrow> Document optionalArgument \<Rightarrow> effect list \<times> outcome" where
  "deselectAllLayersCommand h documentArg =
     (case documentOrCurrent h documentArg of
        None \<Rightarrow> ([], Resolved VUndefined)
      | Some doc \<Rightarrow>
          (if all (layers doc) = [] then ([], Resolved VUndefined)
           else
             (let payload = VObj [(''documentID'', VNum (int (Document.id doc))),
                                  (''selectedIDs'', VList [])]
              in ([NextTickDispatch SELECT_LAYERS_BY_ID payload, PlayObject LayerDeselectAll],
                  playObjectResult h LayerDeselectAll))))"

text \<open>
  \<open>this.transfer(selectLayer, document, document.layers.all)\<close> runs the command of the
  \<open>select\<close> action of this module with these arguments and no modifier.
\<close>

definition selectAllLayersCommand ::
  "host \<Rightarrow> Document optionalArgument \<Rightarrow> effect list \<times> outcome" where
  "selectAllLayersCommand h documentArg =
     (case documentOrCurrent h documentArg of
        None \<Rightarrow> ([], Resolved VUndefined)
      | Some doc \<Rightarrow>
          (if all (layers doc) = [] then ([], Resolved VUndefined)
           else selectLayerCommand h doc (ManyLayers (all (layers doc))) None))"

definition deleteSelectedLayersCommand ::
  "host \<Rightarrow> Document optionalArgument \<Rightarrow> effect list \<times> outcome" where
  "deleteSelectedLayersCommand h documentArg =
     (case documentOrCurrent h documentArg of
        None \<Rightarrow> ([], Resolved VUndefined)
      | Some doc \<Rightarrow>
          (if all (layers doc) = [] \<or> \<not> selectedLayersDeletable (layers doc)
           then ([], Resolved VUndefined)
           else
             (let documentID = Document.id doc;
                  selectedLayers = allSelected (layers doc);
                  layerIDs = map (\<lambda>l. VNum (int (Layer.id l))) selectedLayers;
                  deletePlayObject = LayerDelete LayerRefCurrent;
                  payload = VObj [(''documentID'', VNum (int documentID)),
                                  (''layerIDs'', VList layerIDs)];
                  options =
                    \<lparr>historyStateInfo =
                       \<lparr>historyName = DELETE_LAYERS h,
                        historyTarget = DocumentRefById documentID\<rparr>,
                     paintOptions = None\<rparr>
              in ([NextTickDispatch DELETE_SELECTED payload,
                   PlayWithLockOverride doc selectedLayers (OnePlayObject deletePlayObject)
                     options (Some True)],
                  playWithLockOverrideResult h (OnePlayObject deletePlayObject)))))"

text \<open>
  \<open>groupSelected\<close>: nothing when no layer is selected. The dispatch is in the \<open>then\<close> of
  the host call: it happens when the call resolves, and reading the fields of a result
  that is \<open>undefined\<close> or \<open>null\<close> rejects the promise instead.
\<close>

definition groupSelectedLayersCommand :: "host \<Rightarrow> Document \<Rightarrow> effect list \<times> outcome" where
  "groupSelectedLayersCommand h doc =
     (if length (selected (layers doc)) = 0 then ([], Resolved VUndefined)
      else
        (case playObjectResult h LayerGroupSelected of
           Rejected \<Rightarrow> ([PlayObject LayerGroupSelected], Rejected)
         | Resolved groupResult \<Rightarrow>
             (case (getProp groupResult ''layerSectionStart'',
                    getProp groupResult ''layerSectionEnd'',
                    getProp groupResult ''name'') of
                (Inr groupID, Inr groupEndID, Inr groupname) \<Rightarrow>
                  ([PlayObject LayerGroupSelected,
                    Dispatch GROUP_SELECTED
                      (VObj [(''documentID'', VNum (int (Document.id doc))),
                             (''groupID'', groupID),
                             (''groupEndID'', groupEndID),
                             (''groupname'', groupname)])],
                   Resolved VUndefined)
              | _ \<Rightarrow> ([PlayObject LayerGroupSelected], Rejected))))"

text \<open>
  \<open>_unlockBackgroundLayer\<close>: the host call, and in its \<open>then\<close> the transfer to
  \<open>documents.updateDocument\<close> with the ID of the document.
\<close>

definition unlockBackgroundLayer :: "host \<Rightarrow> Document \<Rightarrow> Layer \<Rightarrow> effect list \<times> outcome" where
  "unlockBackgroundLayer h doc layer =
     (case playObjectResult h (LayerUnlockBackground (Layer.id layer)) of
        Rejected \<Rightarrow> ([PlayObject (LayerUnlockBackground (Layer.id layer))], Rejected)
      | Resolved r \<Rightarrow>
          ([PlayObject (LayerUnlockBackground (Layer.id layer)),
            TransferUpdateDocument (Document.id doc)],
           updateDocumentResult h (Document.id doc)))"

definition setLockingCommand ::
  "host \<Rightarrow> Document \<Rightarrow> Layer \<Rightarrow> bool \<Rightarrow> effect list \<times> outcome" where
  "setLockingCommand h doc layer locked =
     (let payload = VObj [(''documentID'', VNum (int (Document.id doc))),
                          (''layerID'', VNum (int (Layer.id layer))),
                          (''locked'', VBool locked)];
          layerRef = [DocumentRefById (Document.id doc), LayerRefById (Layer.id layer)];
          (effects, result) =
            (if isBackground layer then unlockBackgroundLayer h doc layer
             else ([PlayObject (LayerSetLocking layerRef locked)],
                   playObjectResult h (LayerSetLocking layerRef locked)))
      in (NextTickDispatch LOCK_CHANGED payload # effects, result))"

text \<open>
  \<open>groupSelectedInCurrentDocument\<close>: nothing when there is no current document; otherwise
  the transfer to \<open>groupSelected\<close> with the current document.
\<close>

definition groupSelectedLayersInCurrentDocumentCommand :: "host \<Rightarrow> effect list \<times> outcome" where
  "groupSelectedLayersInCurrentDocumentCommand h =
     (case getCurrentDocument h of
        None \<Rightarrow> ([], Resolved VUndefined)
      | Some currentDocument \<Rightarrow> groupSelectedLayersCommand h currentDocument)"

definition setVisibilityCommand ::
  "host \<Rightarrow> Document \<Rightarrow> Layer \<Rightarrow> bool \<Rightarrow> effect list \<times> outcome" where
  "setVisibilityCommand h doc layer visible =
     (let payload = VObj [(''documentID'', VNum (int (Document.id doc))),
                          (''layerID'', VNum (int (Layer.id layer))),
                          (''visible'', VBool visible)];
          command = (if visible then LayerShow else LayerHide);
          layerRef = [DocumentRefById (Document.id doc), LayerRefById (Layer.id layer)]
      in ([NextTickDispatch VISIBILITY_CHANGED payload, PlayObject (command layerRef)],
          playObjectResult h (command layerRef)))"

text \<open>\<open>setOpacity\<close>; the opacity is a percentage, a whole number here.\<close>

definition setOpacityCommand ::
  "host \<Rightarrow> resources \<Rightarrow> Document \<Rightarrow> Layer list \<Rightarrow> int \<Rightarrow> effect list \<times> outcome" where
  "setOpacityCommand h res doc someLayers opacity =
     (let payload = VObj [(''documentID'', VNum (int (Document.id doc))),
                          (''layerIDs'', VList (map (\<lambda>l. VNum (int (Layer.id l))) someLayers)),
                          (''opacity'', VNum opacity)];
          playObjects =
            map (\<lambda>layer.
                   LayerSetOpacity
                     [DocumentRefById (Document.id doc), LayerRefById (Layer.id layer)]
                     opacity)
              someLayers;
          options =
            \<lparr>historyStateInfo =
               \<lparr>historyName = CHANGE_LAYER_OPACITY res,
                historyTarget = DocumentRefById (Document.id doc)\<rparr>,
             paintOptions = Some paintOptionsValue\<rparr>
      in ([NextTickDispatch OPACITY_CHANGED payload,
           PlayWithLockOverride doc someLayers (PlayObjects playObjects) options None],
          playWithLockOverrideResult h (PlayObjects playObjects)))"

text \<open>
  \<open>Promise.all\<close>: rejected when one of the promises is, and resolved with the array of
  the values otherwise.
\<close>

definition promiseAll :: "outcome list \<Rightarrow> outcome" where
  "promiseAll promises =
     (if Rejected \<in> set promises then Rejected
      else Resolved (VList (concat (map (\<lambda>p. case p of Resolved v \<Rightarrow> [v] | Rejected \<Rightarrow> [])
                                      promises))))"

text \<open>
  \<open>_setLockingInCurrentDocument\<close>: nothing when there is no current document; otherwise
  one transfer to \<open>setLocking\<close> for every selected layer, in their order. The result
  keeps the effects of each transfer apart, since the continuations of the transfers run
  in no fixed order.
\<close>

definition setLockingInCurrentDocument ::
  "host \<Rightarrow> bool \<Rightarrow> (effect list \<times> outcome) list \<times> outcome" where
  "setLockingInCurrentDocument h locked =
     (case getCurrentDocument h of
        None \<Rightarrow> ([], Resolved VUndefined)
      | Some currentDocument \<Rightarrow>
          (let lockPromises =
                 map (\<lambda>layer. setLockingCommand h currentDocument layer locked)
                   (selected (layers currentDocument))
           in (lockPromises, promiseAll (map snd lockPromises))))"

definition lockSelectedInCurrentDocumentCommand ::
  "host \<Rightarrow> (effect list \<times> outcome) list \<times> outcome" where
  "lockSelectedInCurrentDocumentCommand h = setLockingInCurrentDocument h True"

definition unlockSelectedInCurrentDocumentCommand ::
  "host \<Rightarrow> (effect list \<times> outcome) list \<times> outcome" where
  "unlockSelectedInCurrentDocumentCommand h = setLockingInCurrentDocument h False"

text \<open>
  \<open>_.range(start, end, -1)\<close> for a start that is a natural number: \<open>start\<close>,
  \<open>start - 1\<close>, ..., down to \<open>end + 1\<close>.
\<close>

definition rangeDown :: "nat \<Rightarrow> int \<Rightarrow> nat list" where
  "rangeDown start stop = map (\<lambda>k. start - k) [0..<nat (int start - stop)]"

definition getLayerIDsForDocument ::
  "resources \<Rightarrow> documentDescriptor \<Rightarrow> effect list \<times> outcome" where
  "getLayerIDsForDocument res doc =
     (let layerCount = numberOfLayers doc;
          startIndex = (if hasBackgroundLayer doc then 0 else 1);
          layerRefs =
            map (\<lambda>i. [DocumentRefById (documentID doc), LayerRefByIndex i])
              (rangeDown layerCount (startIndex - 1))
      in ([BatchGetProperty layerRefs ''layerID''],
          batchGetPropertyResult res layerRefs ''layerID''))"

text \<open>
  \<open>reorder\<close>. The layer specification is one layer ID or a collection of layer IDs. Each
  step is in the \<open>then\<close> of the one before: the play object, the document descriptor, the
  layer IDs, the dispatch.
\<close>

datatype layerIDSpec = OneLayerID nat | ManyLayerIDs "nat list"

definition layerIDList :: "layerIDSpec \<Rightarrow> nat list" where
  "layerIDList spec = (case spec of OneLayerID l \<Rightarrow> [l] | ManyLayerIDs ls \<Rightarrow> ls)"

definition reorderLayersCommand ::
  "host \<Rightarrow> resources \<Rightarrow> nat \<Rightarrow> layerIDSpec \<Rightarrow> nat \<Rightarrow> effect list \<times> outcome" where
  "reorderLayersCommand h res docID spec targetIndex =
     (let layerSpec = layerIDList spec;
          documentRef = DocumentRefById docID;
          layerRef = documentRef # map LayerRefById layerSpec;
          targetRef = LayerRefByIndex targetIndex;
          reorderObj = LayerReorder layerRef targetRef
      in case playObjectResult h reorderObj of
           Rejected \<Rightarrow> ([PlayObject reorderObj], Rejected)
         | Resolved r \<Rightarrow>
             (case getResult res documentRef of
                None \<Rightarrow> ([PlayObject reorderObj, Get documentRef], Rejected)
              | Some doc \<Rightarrow>
                  (case getLayerIDsForDocument res doc of
                     (effects, Rejected) \<Rightarrow>
                       ([PlayObject reorderObj, Get documentRef] @ effects, Rejected)
                   | (effects, Resolved layerIDs) \<Rightarrow>
                       ([PlayObject reorderObj, Get documentRef] @ effects @
                        [Dispatch REORDER_LAYERS
                           (VObj [(''documentID'', VNum (int docID)),
                                  (''layerIDs'', layerIDs)])],
                        Resolved VUndefined))))"

definition setBlendModeCommand ::
  "host \<Rightarrow> resources \<Rightarrow> Document \<Rightarrow> Layer list \<Rightarrow> string \<Rightarrow> effect list \<times> outcome" where
  "setBlendModeCommand h res doc someLayers mode =
     (let documentRef = DocumentRefById (Document.id doc);
          layerIDs = map Layer.id someLayers;
          layerRef = documentRef # map LayerRefById layerIDs;
          options =
            \<lparr>historyStateInfo =
               \<lparr>historyName = SET_BLEND_MODE res,
                historyTarget = DocumentRefById (Document.id doc)\<rparr>,
             paintOptions = None\<rparr>;
          payload = VObj [(''documentID'', VNum (int (Document.id doc))),
                          (''layerIDs'', VList (map (\<lambda>l. VNum (int l)) layerIDs)),
                          (''mode'', VStr mode)]
      in ([NextTickDispatch BLEND_MODE_CHANGED payload,
           PlayWithLockOverride doc someLayers (OnePlayObject (LayerSetBlendMode layerRef mode))
             options None],
          playWithLockOverrideResult h (OnePlayObject (LayerSetBlendMode layerRef mode))))"

text \<open>
  The properties that \<open>_getLayersByRef\<close> asks the host for: those of every layer, and
  those that a layer may have.
\<close>

definition layerProperties :: "string list" where
  "layerProperties =
     [''layerID'', ''name'', ''visible'', ''layerLocking'', ''itemIndex'', ''background'',
      ''boundsNoEffects'', ''opacity'', ''layerFXVisible'', ''mode'']"

definition optionalLayerProperties :: "string list" where
  "optionalLayerProperties =
     [''adjustment'', ''AGMStrokeStyleInfo'', ''textKey'', ''layerKind'', ''keyOriginType'',
      ''fillEnabled'', ''fillOpacity'', ''layerEffects'']"

text \<open>One pair of a reference and a property for every property of every reference.\<close>

definition refObjsOf :: "string list \<Rightarrow> reference list list \<Rightarrow> (reference list \<times> string) list" where
  "refObjsOf properties references =
     concat (map (\<lambda>reference. map (\<lambda>property. (reference, property)) properties) references)"

text \<open>
  The two reductions of \<open>_getLayersByRef\<close> over the values with their indices: a new
  object at every index that is a multiple of the number of properties, and the value
  stored in the last object under the property of the index. The optional value is
  stored only when it is truthy and has the property, and what is stored is that
  property of the value. Writing to the last object when there is none is a
  \<open>TypeError\<close>.
\<close>

definition reduceProperty ::
  "nat \<times> jsval \<Rightarrow> (string \<times> jsval) list list \<Rightarrow> jsError + (string \<times> jsval) list list" where
  "reduceProperty iv results0 =
     (let index = fst iv;
          val = snd iv;
          propertyIndex = index mod length layerProperties;
          results = (if propertyIndex = 0 then results0 @ [[]] else results0);
          property = layerProperties ! propertyIndex
      in if results = [] then Inl TypeError
         else Inr (butlast results @ [setProp (last results) property val]))"

definition reduceOptionalProperty ::
  "nat \<times> jsval \<Rightarrow> (string \<times> jsval) list list \<Rightarrow> jsError + (string \<times> jsval) list list" where
  "reduceOptionalProperty iv results0 =
     (let index = fst iv;
          val = snd iv;
          propertyIndex = index mod length optionalLayerProperties;
          results = (if propertyIndex = 0 then results0 @ [[]] else results0);
          property = optionalLayerProperties ! propertyIndex
      in if \<not> truthy val then Inr results
         else
           (case hasOwnProperty val property of
              Inl e \<Rightarrow> Inl e
            | Inr has \<Rightarrow>
                (if \<not> has then Inr results
                 else if results = [] then Inl TypeError
                 else
                   (case getProp val property of
                      Inl e \<Rightarrow> Inl e
                    | Inr v \<Rightarrow> Inr (butlast results @ [setProp (last results) property v])))))"

text \<open>A value whose \<open>hasOwnProperty\<close> is the method: no property of its own hides it.\<close>

definition keepsHasOwnProperty :: "jsval \<Rightarrow> bool" where
  "keepsHasOwnProperty v =
     (case v of VObj kvs \<Rightarrow> ''hasOwnProperty'' \<notin> fst ` set kvs | _ \<Rightarrow> True)"

text \<open>
  \<open>_.assign(object, source)\<close>: every property of the source is written to the object;
  a source that is \<open>undefined\<close> (\<open>None\<close>) leaves the object as it is.
\<close>

definition assign ::
  "(string \<times> jsval) list \<Rightarrow> (string \<times> jsval) list option \<Rightarrow> (string \<times> jsval) list" where
  "assign object source =
     (case source of
        None \<Rightarrow> object
      | Some properties \<Rightarrow> fold (\<lambda>kv obj. setProp obj (fst kv) (snd kv)) properties object)"

text \<open>
  \<open>_getLayersByRef\<close>: both host calls are made at once; the descriptors are there when
  both have resolved and neither reduction has thrown (\<open>None\<close> is the rejected promise).
\<close>

definition getLayersByRef ::
  "resources \<Rightarrow> reference list list \<Rightarrow> effect list \<times> jsval list option" where
  "getLayersByRef res references =
     (let refObjs = refObjsOf layerProperties references;
          refObjsOptional = refObjsOf optionalLayerProperties references;
          effects = [BatchGetProperties refObjs False, BatchGetProperties refObjsOptional True]
      in case (batchGetPropertiesResult res refObjs,
               batchGetPropertiesContinueResult res refObjsOptional) of
           (Some vals, Some response) \<Rightarrow>
             (case (forEachE reduceProperty (enumerate 0 vals) [],
                    forEachE reduceOptionalProperty (enumerate 0 (fst response)) []) of
                (Inr allProperties, Inr allOptionalProperties) \<Rightarrow>
                  (effects,
                   Some (map (\<lambda>(index, properties).
                                VObj (assign properties
                                        (if index < length allOptionalProperties
                                         then Some (allOptionalProperties ! index)
                                         else None)))
                           (enumerate 0 allProperties)))
              | _ \<Rightarrow> (effects, None))
         | _ \<Rightarrow> (effects, None))"

text \<open>
  \<open>resetLayers\<close>: the dispatch is in the \<open>then\<close> of \<open>_getLayersByRef\<close>; a layer beyond
  the descriptors has the descriptor \<open>undefined\<close>.
\<close>

definition resetLayersCommand ::
  "resources \<Rightarrow> Document \<Rightarrow> Layer list \<Rightarrow> effect list \<times> outcome" where
  "resetLayersCommand res doc someLayers =
     (let layerRefs =
            map (\<lambda>layer. [DocumentRefById (Document.id doc), LayerRefById (Layer.id layer)])
              someLayers
      in case getLayersByRef res layerRefs of
           (effects, None) \<Rightarrow> (effects, Rejected)
         | (effects, Some descriptors) \<Rightarrow>
             (effects @
              [Dispatch RESET_LAYERS
                 (VObj [(''documentID'', VNum (int (Document.id doc))),
                        (''layers'',
                         VList (map (\<lambda>(index, layer).
                                       VObj [(''layerID'', VNum (int (Layer.id layer))),
                                             (''descriptor'',
                                              (if index < length descriptors
                                               then descriptors ! index
                                               else VUndefined))])
                                  (enumerate 0 someLayers)))])],
              Resolved VUndefined))"

text \<open>
  \<open>beforeStartup\<close>: the listener for the \<open>delete\<close> events of the host, and the transfers
  that add the two shortcuts; \<open>Promise.join\<close> of the two transfers.
\<close>

definition beforeStartupCommand :: "resources \<Rightarrow> effect list \<times> outcome" where
  "beforeStartupCommand res =
     ([AddListener ''delete'',
       TransferAddShortcut (BACKSPACE res),
       TransferAddShortcut (DELETE res)],
      promiseAll [addShortcutResult res (BACKSPACE res), addShortcutResult res (DELETE res)])"

section \<open>Menu bar\<close>

subsection \<open>Strings\<close>

text \<open>Reading the decimal digits back, which shows that \<open>showNat\<close> is injective.\<close>

definition digitVal :: "char \<Rightarrow> nat" where
  "digitVal c = length (takeWhile (\<lambda>d. d \<noteq> c) ''0123456789'')"

definition readNat :: "string \<Rightarrow> nat" where
  "readNat s = foldl (\<lambda>acc c. 10 * acc + digitVal c) 0 s"

text \<open>\<open>s.split(c)\<close> for a one-character separator: never the empty array.\<close>

fun splitOn :: "char \<Rightarrow> string \<Rightarrow> string list" where
  "splitOn c [] = [[]]"
| "splitOn c (x # xs) =
     (if x = c then [] # splitOn c xs
      else (case splitOn c xs of [] \<Rightarrow> [[x]] | w # ws \<Rightarrow> (x # w) # ws))"

definition startsWith :: "string \<Rightarrow> string \<Rightarrow> bool" where
  "startsWith s target \<longleftrightarrow> take (length target) s = target"

subsection \<open>Menu items and the menu bar\<close>

text \<open>
  The model of a menu item is not part of these sources. A menu item has the fields that
  the menu bar reads and writes; a new item takes the fields of its descriptor and, for
  the others, the defaults of the model, which are a parameter here.
\<close>

record shortcut =
  keyChar :: string
  modifiers :: nat

datatype MenuItem =
  MenuItem (id: string) (itemID: string) (label: string) (command: string) (checked: nat)
    (shortcut: "shortcut option") (enabled: bool) (submenu: "MenuItem list")
    (submenuMap: "(string \<times> MenuItem) list")

record itemDescriptor =
  id :: string
  itemID :: string
  label :: string
  command :: string
  checked :: nat
  shortcut :: "shortcut option"

definition newMenuItem :: "MenuItem \<Rightarrow> itemDescriptor \<Rightarrow> MenuItem" where
  "newMenuItem defaults d =
     MenuItem (itemDescriptor.id d) (itemDescriptor.itemID d) (itemDescriptor.label d)
       (itemDescriptor.command d) (itemDescriptor.checked d) (itemDescriptor.shortcut d)
       (MenuItem.enabled defaults) (MenuItem.submenu defaults) (MenuItem.submenuMap defaults)"

text \<open>
  The action of a menu item: its \<open>$action\<close> and, when it has one, its \<open>$payload\<close>, which
  is raw JSON or a document.
\<close>

datatype actionPayload = RawPayload jsval | DocumentPayload Document

record menuAction =
  dollar_action :: jsval
  dollar_payload :: "actionPayload option"

record MenuBar =
  id :: jsval
  roots :: "MenuItem list"
  enablers :: "string \<rightharpoonup> string list"
  actions :: "string \<rightharpoonup> menuAction"
  rootMap :: "string \<rightharpoonup> MenuItem"

subsection \<open>Processing the raw menu actions\<close>

text \<open>The nesting depth of a value, which the recursion over the menu actions decreases.\<close>

fun height :: "jsval \<Rightarrow> nat" where
  "height (VList xs) = Suc (fold max (map height xs) 0)"
| "height (VObj kvs) = Suc (fold max (map (\<lambda>kv. height (snd kv)) kvs) 0)"
| "height v = 0"

lemma fold_max_ge: "(m::nat) \<le> fold max ns m"
  by (induction ns arbitrary: m) (auto intro: order_trans [OF max.cobounded2])

lemma fold_max_mem: "(n::nat) \<in> set ns \<Longrightarrow> n \<le> fold max ns m"
proof (induction ns arbitrary: m)
  case Nil
  then show ?case by simp
next
  case (Cons a ns)
  show ?case
  proof (cases "n = a")
    case True
    have "a \<le> max a m" by simp
    also have "\<dots> \<le> fold max ns (max a m)" by (rule fold_max_ge)
    finally show ?thesis using True by simp
  next
    case False
    with Cons show ?thesis by simp
  qed
qed

definition nonEmptyString :: "jsval \<Rightarrow> bool" where
  "nonEmptyString v = (case v of VStr s \<Rightarrow> s \<noteq> [] | _ \<Rightarrow> False)"

lemma forEachEntries_height:
  "\<not> nonEmptyString v \<Longrightarrow> (k, d) \<in> set (forEachEntries v) \<Longrightarrow> height d < height v"
proof (cases v)
  case (VList xs)
  assume "(k, d) \<in> set (forEachEntries v)"
  with VList have "d \<in> set xs" by (auto simp: in_set_enumerate_eq)
  then have "height d \<in> set (map height xs)" by simp
  then have "height d \<le> fold max (map height xs) 0" by (rule fold_max_mem)
  with VList show ?thesis by simp
next
  case (VObj kvs)
  assume "(k, d) \<in> set (forEachEntries v)"
  with VObj have e: "(k, d) \<in> set (forEachEntries (VObj kvs))" by simp
  have "d = VUndefined \<or> d \<in> snd ` set kvs"
  proof (cases "arrayLikeLength kvs")
    case None
    with e have "(k, d) \<in> set kvs" by simp
    then show ?thesis by force
  next
    case (Some n)
    with e obtain i
      where d: "d = (case map_of kvs (showNat i) of None \<Rightarrow> VUndefined | Some v \<Rightarrow> v)"
      by auto
    show ?thesis
    proof (cases "map_of kvs (showNat i)")
      case None
      with d show ?thesis by simp
    next
      case (Some v)
      then have "(showNat i, v) \<in> set kvs" by (rule map_of_SomeD)
      with d Some show ?thesis by force
    qed
  qed
  then show ?thesis
  proof
    assume "d = VUndefined"
    with VObj show ?thesis by simp
  next
    assume "d \<in> snd ` set kvs"
    then have "height d \<in> set (map (\<lambda>kv. height (snd kv)) kvs)" by force
    then have "height d \<le> fold max (map (\<lambda>kv. height (snd kv)) kvs) 0"
      by (rule fold_max_mem)
    with VObj show ?thesis by simp
  qed
qed (auto simp: nonEmptyString_def)

text \<open>
  The rules of a descriptor: its \<open>$enable-rule\<close> split at the commas when it has the
  property (a \<open>TypeError\<close> when the property is not a string), the empty array otherwise.
\<close>

definition ownValue :: "jsval \<Rightarrow> string \<Rightarrow> jsval" where
  "ownValue descriptor k = (case getProp descriptor k of Inl e \<Rightarrow> VUndefined | Inr v \<Rightarrow> v)"

definition ruleArrayOf :: "jsval \<Rightarrow> jsError + string list" where
  "ruleArrayOf descriptor =
     (case hasOwnProperty descriptor ''$enable-rule'' of
        Inl e \<Rightarrow> Inl e
      | Inr has \<Rightarrow>
          (if has
           then (case ownValue descriptor ''$enable-rule'' of
                   VStr rules \<Rightarrow> Inr (splitOn CHR '','' rules)
                 | _ \<Rightarrow> Inl TypeError)
           else Inr []))"

definition menuActionOf :: "jsval \<Rightarrow> menuAction" where
  "menuActionOf descriptor =
     \<lparr>dollar_action = ownValue descriptor ''$action'',
      dollar_payload =
        (if hasOwnProperty descriptor ''$payload'' = Inr True
         then Some (RawPayload (ownValue descriptor ''$payload''))
         else None)\<rparr>"

record menuMaps =
  actionMap :: "string \<rightharpoonup> menuAction"
  enablerMap :: "string \<rightharpoonup> string list"

definition itemPath :: "string option \<Rightarrow> string \<Rightarrow> string" where
  "itemPath prefix prop = (case prefix of None \<Rightarrow> prop | Some p \<Rightarrow> p @ ''.'' @ prop)"

text \<open>
  \<open>_processMenuActions\<close>. A string that is not empty never ends the recursion (each of
  its characters is a string of one character, visited again and again): the call stack
  overflows, a \<open>RangeError\<close>. Below the root an ID is the string built from the prefix,
  a dot and the property; at the root it is the property itself, which for an index is
  a number in the code and its decimal string here.
\<close>

function processMenuActions ::
  "jsval \<Rightarrow> string option \<Rightarrow> menuMaps \<Rightarrow> jsError + menuMaps" where
  "processMenuActions rawActions prefix maps =
     (if nonEmptyString rawActions then Inl RangeError
      else forEachE
        (\<lambda>(prop, descriptor) maps.
           (case ruleArrayOf descriptor of
              Inl e \<Rightarrow> Inl e
            | Inr ruleArray \<Rightarrow>
                (case hasOwnProperty descriptor ''$action'' of
                   Inl e \<Rightarrow> Inl e
                 | Inr has \<Rightarrow>
                     (if has
                      then Inr (maps\<lparr>enablerMap := (enablerMap maps)
                                        (itemPath prefix prop \<mapsto> ruleArray),
                                     actionMap := (actionMap maps)
                                        (itemPath prefix prop \<mapsto> menuActionOf descriptor)\<rparr>)
                      else if prop \<noteq> ''$enable-rule''
                      then processMenuActions descriptor (Some (itemPath prefix prop))
                             (maps\<lparr>enablerMap := (enablerMap maps)
                                      (itemPath prefix prop \<mapsto> ruleArray)\<rparr>)
                      else Inr (maps\<lparr>enablerMap := (enablerMap maps)
                                        (itemPath prefix prop \<mapsto> ruleArray)\<rparr>)))))
        (forEachEntries rawActions) maps)"
  by pat_completeness auto
termination
  by (relation "measure (\<lambda>(v, p, m). height v)") (auto dest: forEachEntries_height)

declare processMenuActions.simps [simp del]

text \<open>
  An object with a \<open>length\<close> property that is a number. Where the number is a length,
  \<open>_.forEach\<close> visits indices and not the properties of the object; a menu description
  has no such object.
\<close>

definition hasNumericLength :: "jsval \<Rightarrow> bool" where
  "hasNumericLength v =
     (case v of
        VObj kvs \<Rightarrow> (case map_of kvs ''length'' of Some (VNum n) \<Rightarrow> True | _ \<Rightarrow> False)
      | _ \<Rightarrow> False)"

text \<open>
  The nodes that the processing visits, in the words of the specification, each with the
  list of the property names from the root to it: every property of the root is visited;
  every property of a visited node that has no \<open>$action\<close> and is not the \<open>$enable-rule\<close>
  property is visited. The ID of a node is its list of names, joined with dots.
\<close>

function menuNodes :: "jsval \<Rightarrow> string list \<Rightarrow> (string list \<times> jsval) list" where
  "menuNodes rawActions path =
     (if nonEmptyString rawActions then []
      else concat (map
        (\<lambda>(prop, descriptor).
           (path @ [prop], descriptor) #
             (if hasOwnProperty descriptor ''$action'' = Inr False \<and> prop \<noteq> ''$enable-rule''
              then menuNodes descriptor (path @ [prop])
              else []))
        (forEachEntries rawActions)))"
  by pat_completeness auto
termination
  by (relation "measure (\<lambda>(v, p). height v)") (auto dest: forEachEntries_height)

declare menuNodes.simps [simp del]

fun dotJoin :: "string list \<Rightarrow> string" where
  "dotJoin [] = []"
| "dotJoin [p] = p"
| "dotJoin (p # q # ps) = p @ ''.'' @ dotJoin (q # ps)"

text \<open>In the same words: the rules of a node and whether it has an action.\<close>

definition enableRules :: "jsval \<Rightarrow> string list" where
  "enableRules descriptor =
     (case ownValue descriptor ''$enable-rule'' of
        VStr rules \<Rightarrow> splitOn CHR '','' rules
      | _ \<Rightarrow> [])"

definition hasAction :: "jsval \<Rightarrow> bool" where
  "hasAction descriptor \<longleftrightarrow> hasOwnProperty descriptor ''$action'' = Inr True"

text \<open>The prefix that the processing of a node at a path is called with.\<close>

definition prefixOf :: "string list \<Rightarrow> string option" where
  "prefixOf path = (if path = [] then None else Some (dotJoin path))"

text \<open>The entries that the visited nodes put into the two maps, in the order of the visit.\<close>

definition enablerWrites :: "(string list \<times> jsval) list \<Rightarrow> (string \<times> string list) list" where
  "enablerWrites nodes = map (\<lambda>(path, d). (dotJoin path, enableRules d)) nodes"

definition actionWrites :: "(string list \<times> jsval) list \<Rightarrow> (string \<times> menuAction) list" where
  "actionWrites nodes =
     map (\<lambda>(path, d). (dotJoin path, menuActionOf d)) (filter (\<lambda>(path, d). hasAction d) nodes)"

subsection \<open>Building the menu bar\<close>

fun mapE :: "('a \<Rightarrow> jsError + 'b) \<Rightarrow> 'a list \<Rightarrow> jsError + 'b list" where
  "mapE f [] = Inr []"
| "mapE f (x # xs) =
     (case f x of
        Inl e \<Rightarrow> Inl e
      | Inr y \<Rightarrow> (case mapE f xs of Inl e \<Rightarrow> Inl e | Inr ys \<Rightarrow> Inr (y # ys)))"

text \<open>
  \<open>MenuBar.fromJSONObjects\<close>. \<open>MenuItem.fromDescriptor\<close> belongs to the model of the menu
  items and is a parameter; the raw menu actions are an object, given by its properties
  in enumeration order.
\<close>

definition fromJSONObjects ::
  "(jsval \<Rightarrow> jsError + MenuItem) \<Rightarrow> jsval \<Rightarrow> (string \<times> jsval) list \<Rightarrow> jsError + MenuBar" where
  "fromJSONObjects fromDescriptor menuObj menuActionsObj =
     (case hasOwnProperty menuObj ''id'' of
        Inl e \<Rightarrow> Inl e
      | Inr hasId \<Rightarrow>
          (if \<not> hasId then Inl (Error ''Missing menu id and submenu'')
           else
             (case hasOwnProperty menuObj ''menu'' of
                Inl e \<Rightarrow> Inl e
              | Inr hasMenu \<Rightarrow>
                  (if \<not> hasMenu then Inl (Error ''Missing menu id and submenu'')
                   else
                     (case ownValue menuObj ''menu'' of
                        VList rawMenus \<Rightarrow>
                          (case mapE fromDescriptor rawMenus of
                             Inl e \<Rightarrow> Inl e
                           | Inr rootItems \<Rightarrow>
                               (case processMenuActions (VObj menuActionsObj) None
                                       \<lparr>actionMap = Map.empty, enablerMap = Map.empty\<rparr> of
                                  Inl e \<Rightarrow> Inl e
                                | Inr maps \<Rightarrow>
                                    Inr \<lparr>MenuBar.id = ownValue menuObj ''id'',
                                         roots = rootItems,
                                         enablers = enablerMap maps,
                                         actions = actionMap maps,
                                         rootMap =
                                           fold (\<lambda>rootItem m. m(MenuItem.id rootItem \<mapsto> rootItem))
                                             rootItems Map.empty\<rparr>))
                      | _ \<Rightarrow> Inl TypeError)))))"

text \<open>
  \<open>getMenuItem\<close>: the root of the first segment of the dot-delimited ID, then the submenu
  of each further segment; \<open>null\<close> (\<open>None\<close>) as soon as one is missing.
\<close>

definition getMenuItem :: "MenuBar \<Rightarrow> string \<Rightarrow> MenuItem option" where
  "getMenuItem this menuID =
     (case splitOn CHR ''.'' menuID of
        [] \<Rightarrow> None
      | rootID # idSegments \<Rightarrow>
          fold (\<lambda>segment result.
                  (case result of
                     None \<Rightarrow> None
                   | Some item \<Rightarrow> map_of (MenuItem.submenuMap item) segment))
            idSegments (rootMap this rootID))"

subsection \<open>The open documents of the window menu\<close>

text \<open>
  The platform: \<open>system.isMac\<close>, \<open>keyutil.modifiersToBits\<close> (applied to the set of the
  modifiers that are on) and the defaults of a menu item.
\<close>

datatype modifier = Command | Option | Shift | Control

record platform =
  isMac :: bool
  modifiersToBits :: "modifier set \<Rightarrow> nat"
  menuItemDefaults :: MenuItem

definition switchDocModifiersMac :: "platform \<Rightarrow> nat" where
  "switchDocModifiersMac env = modifiersToBits env {Command, Option}"

definition switchDocModifiersWin :: "platform \<Rightarrow> nat" where
  "switchDocModifiersWin env = modifiersToBits env {Command, Option}"

text \<open>\<open>findIndex\<close>: the index of the first element that satisfies the predicate, or -1.\<close>

fun findIndex :: "('a \<Rightarrow> bool) \<Rightarrow> 'a list \<Rightarrow> int" where
  "findIndex P [] = - 1"
| "findIndex P (x # xs) =
     (if P x then 0 else (let i = findIndex P xs in if i < 0 then - 1 else i + 1))"

text \<open>
  \<open>list.set(index, value)\<close> of an immutable list, for the indices that \<open>findIndex\<close>
  returns: an index of the list replaces the element there, and -1 counts from the end
  (the last element; on the empty list the value becomes its only element).
\<close>

definition immutableListSet :: "'a list \<Rightarrow> int \<Rightarrow> 'a \<Rightarrow> 'a list" where
  "immutableListSet xs i v =
     (if 0 \<le> i then xs[nat i := v]
      else if xs = [] then [v]
      else xs[length xs - 1 := v])"

definition mergeSubmenu :: "MenuItem \<Rightarrow> MenuItem list \<Rightarrow> MenuItem" where
  "mergeSubmenu menu newsubmenu =
     MenuItem (MenuItem.id menu) (MenuItem.itemID menu) (MenuItem.label menu)
       (MenuItem.command menu) (MenuItem.checked menu) (MenuItem.shortcut menu)
       (MenuItem.enabled menu) newsubmenu (MenuItem.submenuMap menu)"

text \<open>The descriptor of the menu item of the open document at an index.\<close>

definition openDocumentDescriptor ::
  "platform \<Rightarrow> Document option \<Rightarrow> nat \<Rightarrow> Document \<Rightarrow> itemDescriptor" where
  "openDocumentDescriptor env currentDocument i doc =
     \<lparr>itemDescriptor.id = ''WINDOW.OPEN_DOCUMENT.'' @ showNat i,
      itemID = showNat i,
      label = Document.name doc,
      command = ''WINDOW.OPEN_DOCUMENT.'' @ showNat i,
      checked = (if Some doc = currentDocument then 1 else 0),
      shortcut =
        (if i < 9
         then Some \<lparr>keyChar = showNat (i + 1),
                    modifiers = (if isMac env then switchDocModifiersMac env
                                 else switchDocModifiersWin env)\<rparr>
         else None)\<rparr>"

definition selectDocumentAction :: "Document \<Rightarrow> menuAction" where
  "selectDocumentAction doc =
     \<lparr>dollar_action = VStr ''documents.selectDocument'',
      dollar_payload = Some (DocumentPayload doc)\<rparr>"

text \<open>
  \<open>updateOpenDocuments\<close>. The open documents are the values of an object keyed by the
  document IDs, here the list of its properties in enumeration order. The window menu
  is looked up first; updating it when it is \<open>null\<close> is a \<open>TypeError\<close>.
\<close>

definition updateOpenDocuments ::
  "platform \<Rightarrow> MenuBar \<Rightarrow> (nat \<times> Document) list \<Rightarrow> Document option \<Rightarrow> jsError + MenuBar" where
  "updateOpenDocuments env this docs currentDocument =
     (let windowMenu = getMenuItem this ''WINDOW'';
          indexed = enumerate 0 (map snd docs);
          openDocumentItems =
            map (\<lambda>(i, doc).
                   newMenuItem (menuItemDefaults env)
                     (openDocumentDescriptor env currentDocument i doc))
              indexed;
          newActions =
            fold (\<lambda>(i, doc) acts.
                    acts(''WINDOW.OPEN_DOCUMENT.'' @ showNat i \<mapsto> selectDocumentAction doc))
              indexed (actions this)
      in case windowMenu of
           None \<Rightarrow> Inl TypeError
         | Some menu \<Rightarrow>
             (let submenuStart =
                    takeWhile
                      (\<lambda>item. \<not> startsWith (MenuItem.id item) ''WINDOW.OPEN_DOCUMENT.'')
                      (MenuItem.submenu menu);
                  newsubmenu = submenuStart @ openDocumentItems;
                  newWindowMenu = mergeSubmenu menu newsubmenu;
                  windowMenuIndex =
                    findIndex (\<lambda>root. MenuItem.id root = ''WINDOW'') (roots this);
                  newRoots = immutableListSet (roots this) windowMenuIndex newWindowMenu;
                  newRootMap = (rootMap this)(''WINDOW'' \<mapsto> newWindowMenu)
              in Inr (this\<lparr>roots := newRoots, rootMap := newRootMap,
                           actions := newActions\<rparr>)))"

section \<open>Properties\<close>

subsection \<open>Carousel\<close>

lemma items_gotoItem: "items (fst (gotoItem i ev c)) = items c"
  by (simp add: gotoItem_def)

lemma index_gotoItem: "index (fst (gotoItem i ev c)) = i"
  by (simp add: gotoItem_def)

lemma nextItem_in_range:
  assumes "index_in_range c"
  shows "index_in_range (fst (nextItem ev c))"
proof -
  from assms obtain i where i: "index c = Some i" "0 \<le> i" "i < int (length (items c))"
    by (auto simp: index_in_range_def split: option.splits)
  show ?thesis
  proof (cases "wrapNavigation c")
    case True
    from i have pos: "0 < int (length (items c))" by linarith
    then have "(i + 1) mod int (length (items c)) < int (length (items c))"
      and "0 \<le> (i + 1) mod int (length (items c))"
      by simp_all
    moreover from pos have "items c \<noteq> []" by auto
    ultimately show ?thesis using True i
      by (simp add: nextItem_def index_in_range_def gotoItem_def js_rem_def js_add_def
          items_length_def sgn_if Let_def)
  next
    case False
    with i show ?thesis
      by (auto simp: nextItem_def index_in_range_def gotoItem_def js_min_def js_add_def
          js_sub_def items_length_def Let_def)
  qed
qed

lemma prevItem_in_range:
  assumes "index_in_range c"
  shows "index_in_range (fst (prevItem ev c))"
proof -
  from assms obtain i where i: "index c = Some i" "0 \<le> i" "i < int (length (items c))"
    by (auto simp: index_in_range_def split: option.splits)
  then show ?thesis
    by (auto simp: prevItem_def index_in_range_def gotoItem_def js_max_def js_add_def
        js_sub_def js_less_def items_length_def Let_def)
qed

text \<open>
  C10. For a carousel with a non-empty item list whose index is in \<open>[0, n)\<close>, the next
  and previous navigation keep the index in range, with wrapping and with clamping alike;
  going to an item with an argument in \<open>[0, n)\<close> gives an index in range; and the initial
  state of a carousel with a non-empty item list is in range. None of the operations
  changes the item list.
\<close>

theorem carousel_index_invariant:
  fixes c :: "'a carousel"
  assumes "items c \<noteq> []" and "index_in_range c"
  shows "index_in_range (fst (nextItem ev c))
    \<and> index_in_range (fst (prevItem ev c))
    \<and> (\<forall>k. 0 \<le> k \<and> k < int (length (items c))
          \<longrightarrow> index_in_range (fst (gotoItem (Some k) ev c)))
    \<and> index_in_range (getInitialState (items c) w)
    \<and> items (fst (nextItem ev c)) = items c
    \<and> items (fst (prevItem ev c)) = items c"
proof -
  have "index_in_range (fst (nextItem ev c))"
    using assms(2) by (rule nextItem_in_range)
  moreover have "index_in_range (fst (prevItem ev c))"
    using assms(2) by (rule prevItem_in_range)
  moreover have "\<forall>k. 0 \<le> k \<and> k < int (length (items c))
      \<longrightarrow> index_in_range (fst (gotoItem (Some k) ev c))"
    by (simp add: index_in_range_def gotoItem_def)
  moreover have "index_in_range (getInitialState (items c) w)"
    using assms(1) by (simp add: index_in_range_def getInitialState_def)
  moreover have "items (fst (nextItem ev c)) = items c"
    by (simp add: nextItem_def Let_def items_gotoItem)
  moreover have "items (fst (prevItem ev c)) = items c"
    by (simp add: prevItem_def Let_def items_gotoItem)
  ultimately show ?thesis by blast
qed

theorem carousel_index_invariant_witness:
  "index (fst (nextItem \<lparr>propagationStopped = False\<rparr>
       \<lparr>items = [''a'', ''b'', ''c''], wrapNavigation = True, index = Some 2,
        direction = Forward\<rparr>)) = Some 0
   \<and> index (fst (prevItem \<lparr>propagationStopped = False\<rparr>
       \<lparr>items = [''a'', ''b'', ''c''], wrapNavigation = True, index = Some 2,
        direction = Forward\<rparr>)) = Some 1
   \<and> index_in_range (fst (nextItem \<lparr>propagationStopped = False\<rparr>
       \<lparr>items = [''a'', ''b'', ''c''], wrapNavigation = True, index = Some 2,
        direction = Forward\<rparr>))
   \<and> index_in_range (fst (prevItem \<lparr>propagationStopped = False\<rparr>
       \<lparr>items = [''a'', ''b'', ''c''], wrapNavigation = True, index = Some 2,
        direction = Forward\<rparr>))"
proof -
  let ?c = "\<lparr>items = [''a'', ''b'', ''c''], wrapNavigation = True, index = Some 2,
    direction = Forward\<rparr>"
  have h1: "items ?c \<noteq> []" by simp
  have h2: "index_in_range ?c" by (simp add: index_in_range_def)
  have v: "index (fst (nextItem \<lparr>propagationStopped = False\<rparr> ?c)) = Some 0"
    "index (fst (prevItem \<lparr>propagationStopped = False\<rparr> ?c)) = Some 1"
    by (simp_all add: nextItem_def prevItem_def gotoItem_def js_rem_def js_add_def js_sub_def
        js_less_def js_max_def items_length_def Let_def)
  from carousel_index_invariant [OF h1 h2, of "\<lparr>propagationStopped = False\<rparr>" True] v
  show ?thesis by blast
qed

subsection \<open>Bounds store\<close>

lemma layerBoundsMap_fold_dom:
  "dom (fold (\<lambda>lObj boundsMap. boundsMap(layerID lObj \<mapsto> Bounds lObj)) ls m)
     = dom m \<union> layerID ` set ls"
  by (induction ls arbitrary: m) auto

lemma layerBoundsMap_fold_other:
  "k \<notin> layerID ` set ls \<Longrightarrow>
   fold (\<lambda>lObj boundsMap. boundsMap(layerID lObj \<mapsto> Bounds lObj)) ls m k = m k"
  by (induction ls arbitrary: m) auto

lemma layerBoundsMap_fold_entry:
  "distinct (map layerID ls) \<Longrightarrow> l \<in> set ls \<Longrightarrow>
   fold (\<lambda>lObj boundsMap. boundsMap(layerID lObj \<mapsto> Bounds lObj)) ls m (layerID l)
     = Some (Bounds l)"
proof (induction ls arbitrary: m)
  case Nil
  then show ?case by simp
next
  case (Cons a ls)
  show ?case
  proof (cases "l \<in> set ls")
    case True
    with Cons show ?thesis by simp
  next
    case False
    with Cons.prems have "l = a" and "layerID a \<notin> layerID ` set ls" by auto
    then show ?thesis
      by (simp add: layerBoundsMap_fold_other fun_upd_same del: fun_upd_apply)
  qed
qed

lemma dom_layerBoundsMap: "dom (layerBoundsMap ls) = layerID ` set ls"
  by (simp add: layerBoundsMap_def layerBoundsMap_fold_dom)

lemma layerBoundsMap_entry:
  "distinct (map layerID ls) \<Longrightarrow> l \<in> set ls \<Longrightarrow>
   layerBoundsMap ls (layerID l) = Some (Bounds l)"
  by (simp add: layerBoundsMap_def layerBoundsMap_fold_entry)

lemma card_dom_layerBoundsMap:
  "distinct (map layerID ls) \<Longrightarrow> card (dom (layerBoundsMap ls)) = length ls"
  using distinct_card [of "map layerID ls"] by (simp add: dom_layerBoundsMap)

lemma fold_resetOneDocument_Cons:
  "fold resetOneDocument (a # ds) s = fold resetOneDocument ds (resetOneDocument a s)"
  by simp

lemma resetOneDocument_frame:
  "documentBounds (resetOneDocument a s) = documentBounds s"
  "emitted (resetOneDocument a s) = emitted s"
  by (simp_all add: resetOneDocument_def)

lemma resetOneDocument_layerBounds:
  "layerBounds (resetOneDocument a s) =
     (layerBounds s)(documentID (document a) \<mapsto> layerBoundsMap (docObj.layers a))"
  by (simp add: resetOneDocument_def)

lemma fold_resetOneDocument_other:
  "k \<notin> (\<lambda>dObj. documentID (document dObj)) ` set ds \<Longrightarrow>
   layerBounds (fold resetOneDocument ds s) k = layerBounds s k"
  by (induction ds arbitrary: s) (auto simp: resetOneDocument_layerBounds)

lemma fold_resetOneDocument_frame:
  "documentBounds (fold resetOneDocument ds s) = documentBounds s
   \<and> emitted (fold resetOneDocument ds s) = emitted s"
  by (induction ds arbitrary: s) (auto simp: resetOneDocument_frame)

lemma fold_resetOneDocument_dom:
  "dom (layerBounds (fold resetOneDocument ds s))
     = dom (layerBounds s) \<union> (\<lambda>dObj. documentID (document dObj)) ` set ds"
  by (induction ds arbitrary: s) (auto simp: resetOneDocument_layerBounds)

lemma fold_resetOneDocument_entry:
  "distinct (map (\<lambda>dObj. documentID (document dObj)) ds) \<Longrightarrow> d \<in> set ds \<Longrightarrow>
   layerBounds (fold resetOneDocument ds s) (documentID (document d))
     = Some (layerBoundsMap (docObj.layers d))"
proof (induction ds arbitrary: s)
  case Nil
  then show ?case by simp
next
  case (Cons a ds)
  show ?case
  proof (cases "d \<in> set ds")
    case True
    with Cons show ?thesis by simp
  next
    case False
    with Cons.prems have "d = a"
      and "documentID (document a) \<notin> (\<lambda>dObj. documentID (document dObj)) ` set ds"
      by auto
    then show ?thesis
      by (simp add: fold_resetOneDocument_other resetOneDocument_layerBounds fun_upd_same
          del: fun_upd_apply)
  qed
qed

lemma handleAction_reset:
  "ev = DOCUMENT_UPDATED \<or> ev = RESET_DOCUMENTS \<Longrightarrow>
   handleAction ev p s = resetDocumentLayerBounds p s"
  by (auto simp: handleAction_def boundAction_def)

lemma handleAction_current:
  "handleAction CURRENT_DOCUMENT_UPDATED p s = s"
  by (simp add: handleAction_def boundAction_def)

lemma dom_layerBounds_handleAction:
  "dom (layerBounds (handleAction ev p s))
     = dom (layerBounds s) \<union> processedDocumentIDs [(ev, p)]"
  by (cases ev)
    (simp_all add: handleAction_def boundAction_def resetDocumentLayerBounds_def Let_def
      fold_resetOneDocument_dom payloadDocumentIDs_def)

lemma dom_layerBounds_handleActions:
  "dom (layerBounds (handleActions evs s)) = dom (layerBounds s) \<union> processedDocumentIDs evs"
proof (induction evs arbitrary: s)
  case Nil
  then show ?case by simp
next
  case (Cons e evs)
  obtain ev p where e: "e = (ev, p)" by (cases e)
  have "dom (layerBounds (handleActions evs (handleAction ev p s)))
      = dom (layerBounds s) \<union> processedDocumentIDs [(ev, p)] \<union> processedDocumentIDs evs"
    by (simp only: Cons.IH dom_layerBounds_handleAction)
  then show ?case unfolding e by auto
qed

lemma documentBounds_handleAction:
  "documentBounds (handleAction ev p s) = documentBounds s"
  by (cases ev)
    (simp_all add: handleAction_def boundAction_def resetDocumentLayerBounds_def Let_def
      fold_resetOneDocument_frame)

lemma documentBounds_handleActions:
  "documentBounds (handleActions evs s) = documentBounds s"
  by (induction evs s rule: handleActions.induct) (simp_all add: documentBounds_handleAction)

lemma getDocumentBounds_never_stored:
  "getDocumentBounds (handleActions evs initialize) docID = None"
  by (simp add: getDocumentBounds_def documentBounds_handleActions initialize_def)

text \<open>
  C1. The layer half holds: after a document update the store returns the bounds of the
  layers of the payload. The document half does not: nothing ever writes
  \<open>_documentBounds\<close>, so after the store, freshly initialised, has processed a
  \<open>DOCUMENT_UPDATED\<close> event for document 1 with the layer 7, \<open>getLayerBounds(1, 7)\<close> is the
  bounds built from that layer, but \<open>getDocumentBounds(1)\<close> is \<open>undefined\<close>.
\<close>

theorem getDocumentBounds_undefined_after_update:
  "getDocumentBounds
     (handleAction DOCUMENT_UPDATED
        \<lparr>documents = [\<lparr>document = \<lparr>documentID = 1\<rparr>, docObj.layers = [\<lparr>layerID = 7\<rparr>]\<rparr>]\<rparr>
        initialize) 1 = None
   \<and> getLayerBounds
     (handleAction DOCUMENT_UPDATED
        \<lparr>documents = [\<lparr>document = \<lparr>documentID = 1\<rparr>, docObj.layers = [\<lparr>layerID = 7\<rparr>]\<rparr>]\<rparr>
        initialize) 1 7 = Inr (Some (Bounds \<lparr>layerID = 7\<rparr>))"
  by (simp add: getDocumentBounds_def getLayerBounds_def handleAction_def boundAction_def
      resetDocumentLayerBounds_def resetOneDocument_def layerBoundsMap_def initialize_def)

text \<open>
  C3. Processing \<open>DOCUMENT_UPDATED\<close> or \<open>RESET_DOCUMENTS\<close>, for a payload whose documents
  have distinct IDs and whose layers have distinct IDs within each document: every
  document of the payload gets a layer-bounds map whose keys are the IDs of its payload
  layers, one entry per layer, each layer's ID mapped to the \<open>Bounds\<close> built from that
  layer's descriptor; the entries of all other documents are unchanged; the document
  bounds are unchanged; and exactly one \<open>change\<close> is emitted.
\<close>

theorem resetDocumentLayerBounds_replaces:
  fixes p :: "'a layerObj_scheme payload"
  assumes "ev = DOCUMENT_UPDATED \<or> ev = RESET_DOCUMENTS"
    and "distinct (payloadDocumentIDs p)"
    and "\<forall>d \<in> set (documents p). distinct (map layerID (docObj.layers d))"
  shows "(\<forall>d \<in> set (documents p).
            \<exists>boundsMap. layerBounds (handleAction ev p s) (documentID (document d)) = Some boundsMap
              \<and> dom boundsMap = layerID ` set (docObj.layers d)
              \<and> card (dom boundsMap) = length (docObj.layers d)
              \<and> (\<forall>l \<in> set (docObj.layers d). boundsMap (layerID l) = Some (Bounds l)))
       \<and> (\<forall>k. k \<notin> set (payloadDocumentIDs p)
            \<longrightarrow> layerBounds (handleAction ev p s) k = layerBounds s k)
       \<and> documentBounds (handleAction ev p s) = documentBounds s
       \<and> emitted (handleAction ev p s) = emitted s @ [''change'']"
proof -
  let ?s' = "fold resetOneDocument (documents p) s"
  have h: "handleAction ev p s = ?s'\<lparr>emitted := emitted ?s' @ [''change'']\<rparr>"
    using assms(1) by (simp add: handleAction_reset resetDocumentLayerBounds_def Let_def)
  have lb: "layerBounds (handleAction ev p s) = layerBounds ?s'"
    by (simp add: h)
  have a: "\<exists>boundsMap. layerBounds (handleAction ev p s) (documentID (document d)) = Some boundsMap
              \<and> dom boundsMap = layerID ` set (docObj.layers d)
              \<and> card (dom boundsMap) = length (docObj.layers d)
              \<and> (\<forall>l \<in> set (docObj.layers d). boundsMap (layerID l) = Some (Bounds l))"
    if d: "d \<in> set (documents p)" for d
  proof -
    from assms(3) d have dl: "distinct (map layerID (docObj.layers d))" by blast
    have "layerBounds ?s' (documentID (document d)) = Some (layerBoundsMap (docObj.layers d))"
      using assms(2) d by (simp add: fold_resetOneDocument_entry payloadDocumentIDs_def)
    moreover have "dom (layerBoundsMap (docObj.layers d)) = layerID ` set (docObj.layers d)"
      by (rule dom_layerBoundsMap)
    moreover have "card (dom (layerBoundsMap (docObj.layers d))) = length (docObj.layers d)"
      using dl by (rule card_dom_layerBoundsMap)
    moreover have "\<forall>l \<in> set (docObj.layers d). layerBoundsMap (docObj.layers d) (layerID l) = Some (Bounds l)"
      using dl by (simp add: layerBoundsMap_entry)
    ultimately show ?thesis unfolding lb by blast
  qed
  have b: "\<forall>k. k \<notin> set (payloadDocumentIDs p)
      \<longrightarrow> layerBounds (handleAction ev p s) k = layerBounds s k"
    unfolding lb by (simp add: fold_resetOneDocument_other payloadDocumentIDs_def)
  have c: "documentBounds (handleAction ev p s) = documentBounds s"
    by (rule documentBounds_handleAction)
  have e: "emitted (handleAction ev p s) = emitted s @ [''change'']"
    by (simp add: h fold_resetOneDocument_frame)
  from a b c e show ?thesis by blast
qed

theorem resetDocumentLayerBounds_replaces_witness:
  "layerBounds
     (handleAction RESET_DOCUMENTS
        \<lparr>documents = [\<lparr>document = \<lparr>documentID = 1\<rparr>,
                        docObj.layers = [\<lparr>layerID = 7\<rparr>, \<lparr>layerID = 8\<rparr>]\<rparr>]\<rparr>
        \<lparr>layerBounds = [1 \<mapsto> [3 \<mapsto> Bounds \<lparr>layerID = 3\<rparr>], 2 \<mapsto> Map.empty],
         documentBounds = Map.empty, emitted = []\<rparr>) 2 = Some Map.empty
   \<and> emitted
     (handleAction RESET_DOCUMENTS
        \<lparr>documents = [\<lparr>document = \<lparr>documentID = 1\<rparr>,
                        docObj.layers = [\<lparr>layerID = 7\<rparr>, \<lparr>layerID = 8\<rparr>]\<rparr>]\<rparr>
        \<lparr>layerBounds = [1 \<mapsto> [3 \<mapsto> Bounds \<lparr>layerID = 3\<rparr>], 2 \<mapsto> Map.empty],
         documentBounds = Map.empty, emitted = []\<rparr>) = [''change'']
   \<and> (\<exists>boundsMap. layerBounds
     (handleAction RESET_DOCUMENTS
        \<lparr>documents = [\<lparr>document = \<lparr>documentID = 1\<rparr>,
                        docObj.layers = [\<lparr>layerID = 7\<rparr>, \<lparr>layerID = 8\<rparr>]\<rparr>]\<rparr>
        \<lparr>layerBounds = [1 \<mapsto> [3 \<mapsto> Bounds \<lparr>layerID = 3\<rparr>], 2 \<mapsto> Map.empty],
         documentBounds = Map.empty, emitted = []\<rparr>) 1 = Some boundsMap
      \<and> dom boundsMap = {7, 8}
      \<and> boundsMap 7 = Some (Bounds \<lparr>layerID = 7\<rparr>)
      \<and> boundsMap 8 = Some (Bounds \<lparr>layerID = 8\<rparr>))"
proof -
  let ?p = "\<lparr>documents = [\<lparr>document = \<lparr>documentID = 1\<rparr>,
                        docObj.layers = [\<lparr>layerID = 7\<rparr>, \<lparr>layerID = 8\<rparr>]\<rparr>]\<rparr>"
  let ?s = "\<lparr>layerBounds = [1 \<mapsto> [3 \<mapsto> Bounds \<lparr>layerID = 3\<rparr>], 2 \<mapsto> Map.empty],
         documentBounds = Map.empty, emitted = []\<rparr>"
  have h1: "RESET_DOCUMENTS = DOCUMENT_UPDATED \<or> RESET_DOCUMENTS = RESET_DOCUMENTS" by simp
  have h2: "distinct (payloadDocumentIDs ?p)" by (simp add: payloadDocumentIDs_def)
  have h3: "\<forall>d \<in> set (documents ?p). distinct (map layerID (docObj.layers d))" by simp
  note t = resetDocumentLayerBounds_replaces [OF h1 h2 h3, of ?s]
  from t have e: "emitted (handleAction RESET_DOCUMENTS ?p ?s) = [''change'']"
    by simp
  from t have "\<forall>k. k \<notin> set (payloadDocumentIDs ?p)
      \<longrightarrow> layerBounds (handleAction RESET_DOCUMENTS ?p ?s) k = layerBounds ?s k"
    by blast
  then have "layerBounds (handleAction RESET_DOCUMENTS ?p ?s) 2 = layerBounds ?s 2"
    by (simp add: payloadDocumentIDs_def)
  then have o: "layerBounds (handleAction RESET_DOCUMENTS ?p ?s) 2 = Some Map.empty"
    by simp
  from t have "\<forall>d \<in> set (documents ?p).
      \<exists>boundsMap. layerBounds (handleAction RESET_DOCUMENTS ?p ?s) (documentID (document d))
          = Some boundsMap
        \<and> dom boundsMap = layerID ` set (docObj.layers d)
        \<and> card (dom boundsMap) = length (docObj.layers d)
        \<and> (\<forall>l \<in> set (docObj.layers d). boundsMap (layerID l) = Some (Bounds l))"
    by blast
  then have "\<exists>boundsMap. layerBounds (handleAction RESET_DOCUMENTS ?p ?s) 1 = Some boundsMap
      \<and> dom boundsMap = {7, 8}
      \<and> boundsMap 7 = Some (Bounds \<lparr>layerID = 7\<rparr>)
      \<and> boundsMap 8 = Some (Bounds \<lparr>layerID = 8\<rparr>)"
    by (auto simp: insert_commute)
  with o e show ?thesis by blast
qed

text \<open>
  C8. For the store after any sequence of events from its initial state:
  \<open>getLayerBounds(documentID, layerID)\<close> returns, without an error, the entry of the
  document's layer-bounds map (no value for a layer the map does not have) when the
  document appeared in the payload of a handled \<open>DOCUMENT_UPDATED\<close> or
  \<open>RESET_DOCUMENTS\<close> event, and fails with a \<open>TypeError\<close> when it never did.
\<close>

theorem getLayerBounds_needs_processed_document:
  "(docID \<in> processedDocumentIDs evs \<longrightarrow>
      (\<exists>boundsMap. layerBounds (handleActions evs initialize) docID = Some boundsMap
         \<and> getLayerBounds (handleActions evs initialize) docID lID = Inr (boundsMap lID)))
   \<and> (docID \<notin> processedDocumentIDs evs \<longrightarrow>
      getLayerBounds (handleActions evs initialize) docID lID = Inl TypeError)"
proof -
  have "dom (layerBounds (handleActions evs initialize)) = processedDocumentIDs evs"
    by (simp add: dom_layerBounds_handleActions initialize_def)
  then show ?thesis
    by (auto simp: getLayerBounds_def split: option.splits)
qed

theorem getLayerBounds_needs_processed_document_witness:
  "getLayerBounds
     (handleActions
        [(DOCUMENT_UPDATED,
          \<lparr>documents = [\<lparr>document = \<lparr>documentID = 1\<rparr>, docObj.layers = [\<lparr>layerID = 7\<rparr>]\<rparr>]\<rparr>),
         (CURRENT_DOCUMENT_UPDATED,
          \<lparr>documents = [\<lparr>document = \<lparr>documentID = 2\<rparr>, docObj.layers = [\<lparr>layerID = 9\<rparr>]\<rparr>]\<rparr>)]
        initialize) 2 9 = Inl TypeError
   \<and> (\<exists>boundsMap. layerBounds
     (handleActions
        [(DOCUMENT_UPDATED,
          \<lparr>documents = [\<lparr>document = \<lparr>documentID = 1\<rparr>, docObj.layers = [\<lparr>layerID = 7\<rparr>]\<rparr>]\<rparr>),
         (CURRENT_DOCUMENT_UPDATED,
          \<lparr>documents = [\<lparr>document = \<lparr>documentID = 2\<rparr>, docObj.layers = [\<lparr>layerID = 9\<rparr>]\<rparr>]\<rparr>)]
        initialize) 1 = Some boundsMap
     \<and> getLayerBounds
     (handleActions
        [(DOCUMENT_UPDATED,
          \<lparr>documents = [\<lparr>document = \<lparr>documentID = 1\<rparr>, docObj.layers = [\<lparr>layerID = 7\<rparr>]\<rparr>]\<rparr>),
         (CURRENT_DOCUMENT_UPDATED,
          \<lparr>documents = [\<lparr>document = \<lparr>documentID = 2\<rparr>, docObj.layers = [\<lparr>layerID = 9\<rparr>]\<rparr>]\<rparr>)]
        initialize) 1 8 = Inr (boundsMap 8))"
proof -
  let ?evs = "[(DOCUMENT_UPDATED,
          \<lparr>documents = [\<lparr>document = \<lparr>documentID = 1\<rparr>, docObj.layers = [\<lparr>layerID = 7\<rparr>]\<rparr>]\<rparr>),
         (CURRENT_DOCUMENT_UPDATED,
          \<lparr>documents = [\<lparr>document = \<lparr>documentID = 2\<rparr>, docObj.layers = [\<lparr>layerID = 9\<rparr>]\<rparr>]\<rparr>)]"
  have p: "processedDocumentIDs ?evs = {1}"
    by (simp add: payloadDocumentIDs_def)
  from getLayerBounds_needs_processed_document [of 2 ?evs 9]
    getLayerBounds_needs_processed_document [of 1 ?evs 8] p
  show ?thesis by simp
qed

subsection \<open>Root font size\<close>

lemma htmlFontSize_ratio_1:
  "htmlFontSize 1 w = (if w < 801 then base_10 else if w \<le> 1440 then base_8 else base_10)"
  by (simp add: htmlFontSize_def cascade_def htmlMediaRules_def mediaMatches_def)

lemma htmlFontSize_ratio_2:
  "htmlFontSize 2 w =
     (if w < 801 then base_10 else if w \<le> 1440 then base_8
      else if w \<le> 1680 then base_9 else if w \<le> 2560 then base_10 else base_11)"
  by (simp add: htmlFontSize_def cascade_def htmlMediaRules_def mediaMatches_def)

text \<open>
  C7. For the pixel ratios 1 and 2, the selected root font size does not decrease as the
  device width grows from 801px on; and for every device width from 1441px to 1680px the
  pixel ratio 1 selects 62.5\% and the pixel ratio 2 selects 56.3\%.
\<close>

theorem htmlFontSize_monotone_and_density:
  "(\<forall>r \<in> {1, 2}. \<forall>w1 w2. 801 \<le> w1 \<and> w1 \<le> w2
        \<longrightarrow> htmlFontSize r w1 \<le> htmlFontSize r w2)
   \<and> (\<forall>w. 1441 \<le> w \<and> w \<le> 1680
        \<longrightarrow> htmlFontSize 1 w = 625 / 10 \<and> htmlFontSize 2 w = 563 / 10)"
  by (simp add: htmlFontSize_ratio_1 htmlFontSize_ratio_2 base_8_def base_9_def base_10_def
      base_11_def)

theorem htmlFontSize_monotone_and_density_witness:
  "htmlFontSize 1 1500 = 625 / 10 \<and> htmlFontSize 2 1500 = 563 / 10
   \<and> htmlFontSize 2 1280 \<le> htmlFontSize 2 2561 \<and> htmlFontSize 2 2561 = 688 / 10"
proof -
  note t = htmlFontSize_monotone_and_density
  from t have "\<forall>w. 1441 \<le> w \<and> w \<le> 1680
      \<longrightarrow> htmlFontSize 1 w = 625 / 10 \<and> htmlFontSize 2 w = 563 / 10"
    by blast
  then have a: "htmlFontSize 1 1500 = 625 / 10 \<and> htmlFontSize 2 1500 = 563 / 10"
    by simp
  from t have "\<forall>r \<in> {1, 2}. \<forall>w1 w2. 801 \<le> w1 \<and> w1 \<le> w2
      \<longrightarrow> htmlFontSize r w1 \<le> htmlFontSize r w2"
    by blast
  then have "\<forall>w1 w2. 801 \<le> w1 \<and> w1 \<le> w2 \<longrightarrow> htmlFontSize 2 w1 \<le> htmlFontSize 2 w2"
    by blast
  then have b: "htmlFontSize 2 1280 \<le> htmlFontSize 2 2561"
    by simp
  have c: "htmlFontSize 2 2561 = 688 / 10"
    by (simp add: htmlFontSize_ratio_2 base_11_def)
  from a b c show ?thesis by blast
qed

subsection \<open>Layer actions\<close>

lemma selectLayerCommand_plain:
  "plainSelect modifier \<Longrightarrow>
   selectLayerCommand h doc spec modifier =
     ([NextTickDispatch SELECT_LAYERS_BY_ID
         (VObj [(''documentID'', VNum (int (Document.id doc))),
                (''selectedIDs'', VList (map (\<lambda>l. VNum (int (Layer.id l))) (layerList spec)))]),
       PlayObject (LayerSelect
         (DocumentRefById (Document.id doc)
            # map (\<lambda>l. LayerRefById (Layer.id l)) (layerList spec))
         False modifier)],
      (case playObjectResult h (LayerSelect
              (DocumentRefById (Document.id doc)
                 # map (\<lambda>l. LayerRefById (Layer.id l)) (layerList spec))
              False modifier) of
         Rejected \<Rightarrow> Rejected
       | Resolved r \<Rightarrow> Resolved VUndefined))"
  by (simp add: selectLayerCommand_def Let_def split: outcome.splits)

lemma selectLayerCommand_modifier:
  "\<not> plainSelect modifier \<Longrightarrow>
   selectLayerCommand h doc spec modifier =
     (PlayObject (LayerSelect
         (DocumentRefById (Document.id doc)
            # map (\<lambda>l. LayerRefById (Layer.id l)) (layerList spec))
         False modifier)
      # (case playObjectResult h (LayerSelect
                (DocumentRefById (Document.id doc)
                   # map (\<lambda>l. LayerRefById (Layer.id l)) (layerList spec))
                False modifier) of
           Rejected \<Rightarrow> []
         | Resolved r \<Rightarrow>
             GetProperty (DocumentRefById (Document.id doc)) ''targetLayers''
             # (case getPropertyResult h (DocumentRefById (Document.id doc)) ''targetLayers'' of
                  Rejected \<Rightarrow> []
                | Resolved targetLayers \<Rightarrow>
                    [Dispatch SELECT_LAYERS_BY_INDEX
                       (VObj [(''documentID'', VNum (int (Document.id doc))),
                              (''selectedIndices'', VList (pluck targetLayers ''index''))])])),
      (case playObjectResult h (LayerSelect
              (DocumentRefById (Document.id doc)
                 # map (\<lambda>l. LayerRefById (Layer.id l)) (layerList spec))
              False modifier) of
         Rejected \<Rightarrow> Rejected
       | Resolved r \<Rightarrow> Resolved VUndefined))"
  by (simp add: selectLayerCommand_def Let_def split: outcome.splits)

lemma groupSelected_result:
  assumes sel: "selected (layers doc) \<noteq> []"
  shows "groupSelectedLayersCommand h doc =
     (PlayObject LayerGroupSelected #
        (case playObjectResult h LayerGroupSelected of
           Rejected \<Rightarrow> []
         | Resolved r \<Rightarrow>
             (if r = VUndefined \<or> r = VNull then []
              else [Dispatch GROUP_SELECTED
                      (VObj [(''documentID'', VNum (int (Document.id doc))),
                             (''groupID'', pluckElement ''layerSectionStart'' r),
                             (''groupEndID'', pluckElement ''layerSectionEnd'' r),
                             (''groupname'', pluckElement ''name'' r)])])),
      (case playObjectResult h LayerGroupSelected of
         Rejected \<Rightarrow> Rejected
       | Resolved r \<Rightarrow> (if r = VUndefined \<or> r = VNull then Rejected else Resolved VUndefined)))"
proof (cases "playObjectResult h LayerGroupSelected")
  case Rejected
  with sel show ?thesis
    by (simp add: groupSelectedLayersCommand_def)
next
  case (Resolved r)
  with sel show ?thesis
    by (cases r) (simp_all add: groupSelectedLayersCommand_def pluckElement_def)
qed

text \<open>The first reduction of \<open>_getLayersByRef\<close> never throws.\<close>

lemma reduceProperty_total:
  "results \<noteq> [] \<or> n mod length layerProperties = 0 \<Longrightarrow>
   \<exists>results'. forEachE reduceProperty (enumerate n vals) results = Inr results'"
proof (induction vals arbitrary: n results)
  case Nil
  then show ?case by simp
next
  case (Cons v vals)
  from Cons.prems obtain r1 where r1: "reduceProperty (n, v) results = Inr r1" "r1 \<noteq> []"
    by (cases "n mod length layerProperties = 0") (auto simp: reduceProperty_def Let_def)
  from Cons.IH [of r1 "Suc n"] r1(2)
  obtain r2 where "forEachE reduceProperty (enumerate (Suc n) vals) r1 = Inr r2" by blast
  with r1(1) show ?case by simp
qed

text \<open>
  The second one throws only when a value hides the \<open>hasOwnProperty\<close> method by a
  property of its own.
\<close>

lemma hasOwnProperty_kept:
  "truthy v \<Longrightarrow> keepsHasOwnProperty v \<Longrightarrow> \<exists>b. hasOwnProperty v k = Inr b"
  by (cases v) (auto simp: keepsHasOwnProperty_def)

lemma getProp_truthy: "truthy v \<Longrightarrow> \<exists>x. getProp v k = Inr x"
  by (cases v) auto

lemma reduceOptionalProperty_total:
  "results \<noteq> [] \<or> n mod length optionalLayerProperties = 0 \<Longrightarrow>
   \<forall>v \<in> set vals. keepsHasOwnProperty v \<Longrightarrow>
   \<exists>results'. forEachE reduceOptionalProperty (enumerate n vals) results = Inr results'"
proof (induction vals arbitrary: n results)
  case Nil
  then show ?case by simp
next
  case (Cons v vals)
  have "\<exists>r1. reduceOptionalProperty (n, v) results = Inr r1 \<and> r1 \<noteq> []"
  proof (cases "truthy v")
    case False
    with Cons.prems(1) show ?thesis
      by (auto simp: reduceOptionalProperty_def Let_def)
  next
    case True
    from Cons.prems(2) have "keepsHasOwnProperty v" by simp
    with True obtain b x
      where "hasOwnProperty v (optionalLayerProperties ! (n mod length optionalLayerProperties))
               = Inr b"
        and "getProp v (optionalLayerProperties ! (n mod length optionalLayerProperties)) = Inr x"
      using hasOwnProperty_kept getProp_truthy by blast
    with True Cons.prems(1) show ?thesis
      by (auto simp: reduceOptionalProperty_def Let_def)
  qed
  then obtain r1 where r1: "reduceOptionalProperty (n, v) results = Inr r1" "r1 \<noteq> []"
    by blast
  from Cons.prems(2) have "\<forall>v \<in> set vals. keepsHasOwnProperty v" by simp
  from Cons.IH [of r1 "Suc n", OF _ this] r1(2)
  obtain r2 where "forEachE reduceOptionalProperty (enumerate (Suc n) vals) r1 = Inr r2"
    by blast
  with r1(1) show ?case by simp
qed

text \<open>
  C5. \<open>renameLayer\<close> schedules the dispatch of \<open>RENAME_LAYER\<close> with the payload
  \<open>{documentID: document.id, layerID: layer.id, name: newName}\<close> and issues one host call,
  \<open>playObject\<close> of the rename descriptor built from the references to the same document
  and layer and the same name; it does nothing else, and its promise is that of the host
  call.
\<close>

theorem renameLayer_dispatch_and_play:
  "renameLayerCommand h doc layer newName =
     ([NextTickDispatch RENAME_LAYER
         (VObj [(''documentID'', VNum (int (Document.id doc))),
                (''layerID'', VNum (int (Layer.id layer))),
                (''name'', VStr newName)]),
       PlayObject (LayerRename
         [DocumentRefById (Document.id doc), LayerRefById (Layer.id layer)] newName)],
      playObjectResult h (LayerRename
         [DocumentRefById (Document.id doc), LayerRefById (Layer.id layer)] newName))
   \<and> length (filter isHostCall (fst (renameLayerCommand h doc layer newName))) = 1
   \<and> length (filter isDispatch (fst (renameLayerCommand h doc layer newName))) = 1"
  by (simp add: renameLayerCommand_def Let_def isHostCall_def isDispatch_def)

text \<open>
  C9. For a background layer, \<open>setLocking\<close> schedules the dispatch of \<open>LOCK_CHANGED\<close>,
  issues the host call that unlocks the background and, when that call resolves,
  transfers to the update of the whole document. This is so for \<open>locked = true\<close> and for
  \<open>locked = false\<close>: the host calls are the same, and no call sets the locking.
\<close>

theorem setLocking_background_unlocks:
  assumes "isBackground layer"
  shows "fst (setLockingCommand h doc layer locked) =
      NextTickDispatch LOCK_CHANGED
        (VObj [(''documentID'', VNum (int (Document.id doc))),
               (''layerID'', VNum (int (Layer.id layer))),
               (''locked'', VBool locked)])
      # PlayObject (LayerUnlockBackground (Layer.id layer))
      # (case playObjectResult h (LayerUnlockBackground (Layer.id layer)) of
           Resolved r \<Rightarrow> [TransferUpdateDocument (Document.id doc)]
         | Rejected \<Rightarrow> [])
    \<and> (\<forall>refs b. PlayObject (LayerSetLocking refs b)
          \<notin> set (fst (setLockingCommand h doc layer locked)))
    \<and> tl (fst (setLockingCommand h doc layer True))
        = tl (fst (setLockingCommand h doc layer False))"
  using assms
  by (auto simp: setLockingCommand_def unlockBackgroundLayer_def Let_def
      split: outcome.splits)

theorem setLocking_background_unlocks_witness:
  "fst (setLockingCommand
      \<lparr>playObjectResult = (\<lambda>obj. Resolved VUndefined),
       getPropertyResult = (\<lambda>r p. Resolved VUndefined),
       playWithLockOverrideResult = (\<lambda>obj. Resolved VUndefined),
       updateDocumentResult = (\<lambda>n. Resolved VUndefined),
       getCurrentDocument = None,
       DELETE_LAYERS = ''Delete Layers''\<rparr>
      \<lparr>Document.id = 4, name = ''a.psd'',
        layers = \<lparr>all = [\<lparr>Layer.id = 7, isBackground = True\<rparr>], selected = [],
                  allSelected = [], selectedLayersDeletable = False\<rparr>\<rparr>
      \<lparr>Layer.id = 7, isBackground = True\<rparr> True)
   = [NextTickDispatch LOCK_CHANGED
        (VObj [(''documentID'', VNum 4), (''layerID'', VNum 7), (''locked'', VBool True)]),
      PlayObject (LayerUnlockBackground 7),
      TransferUpdateDocument 4]"
proof -
  have b: "isBackground \<lparr>Layer.id = 7, isBackground = True\<rparr>" by simp
  from setLocking_background_unlocks [OF b, of
      "\<lparr>playObjectResult = (\<lambda>obj. Resolved VUndefined),
       getPropertyResult = (\<lambda>r p. Resolved VUndefined),
       playWithLockOverrideResult = (\<lambda>obj. Resolved VUndefined),
       updateDocumentResult = (\<lambda>n. Resolved VUndefined),
       getCurrentDocument = None,
       DELETE_LAYERS = ''Delete Layers''\<rparr>"
      "\<lparr>Document.id = 4, name = ''a.psd'',
        layers = \<lparr>all = [\<lparr>Layer.id = 7, isBackground = True\<rparr>], selected = [],
                  allSelected = [], selectedLayersDeletable = False\<rparr>\<rparr>" True]
  show ?thesis by simp
qed

subsection \<open>The one-shot commands\<close>

lemma map_minus_upt: "m \<le> Suc n \<Longrightarrow> map (\<lambda>k. n - k) [0..<m] = rev
    [Suc n - m..<Suc n]"
  by (rule nth_equalityI) (auto simp: rev_nth simp del: upt_Suc)

lemma rangeDown_background: "rangeDown n (- 1) = rev [0..<Suc n]"
  using map_minus_upt [of "Suc n" n] by (simp add: rangeDown_def nat_add_distrib)

lemma rangeDown_plain: "rangeDown n 0 = rev [Suc 0..<Suc n]"
  using map_minus_upt [of n n] by (simp add: rangeDown_def)

lemma selectLayerCommand_dispatches:
  "(\<exists>e \<in> set (fst (selectLayerCommand h doc spec modifier)). isDispatch e)
      \<longleftrightarrow>
      plainSelect modifier
      \<or> (playObjectResult h (LayerSelect
              (DocumentRefById (Document.id doc)
                 # map (\<lambda>l. LayerRefById (Layer.id l)) (layerList spec))
              False modifier) \<noteq> Rejected
         \<and> getPropertyResult h (DocumentRefById (Document.id doc)) ''targetLayers''
             \<noteq> Rejected)"
proof (cases "plainSelect modifier")
  case True
  then show ?thesis by (simp add: selectLayerCommand_plain isDispatch_def)
next
  case False
  show ?thesis
  proof (cases "playObjectResult h (LayerSelect
              (DocumentRefById (Document.id doc)
                 # map (\<lambda>l. LayerRefById (Layer.id l)) (layerList spec))
              False modifier)")
    case Rejected
    with False show ?thesis by (simp add: selectLayerCommand_modifier isDispatch_def)
  next
    case (Resolved r)
    with False show ?thesis
      by (cases "getPropertyResult h (DocumentRefById (Document.id doc)) ''targetLayers''")
        (simp_all add: selectLayerCommand_modifier isDispatch_def)
  qed
qed

lemma groupSelected_dispatches:
  assumes "selected (layers doc) \<noteq> []"
  shows "(\<exists>e \<in> set (fst (groupSelectedLayersCommand h doc)). isPlayObject e)
      \<and> ((\<exists>e \<in> set (fst (groupSelectedLayersCommand h doc)). isDispatch e)
          \<longleftrightarrow>
           (\<exists>r. playObjectResult h LayerGroupSelected = Resolved r
              \<and> r \<noteq> VUndefined \<and> r \<noteq> VNull))"
proof (cases "playObjectResult h LayerGroupSelected")
  case Rejected
  with assms show ?thesis
    by (simp add: groupSelected_result isPlayObject_def isDispatch_def)
next
  case (Resolved r)
  with assms show ?thesis
    by (simp add: groupSelected_result isPlayObject_def isDispatch_def)
qed

lemma resetLayers_resolved:
  assumes vals: "batchGetPropertiesResult res (refObjsOf layerProperties (map (\<lambda>layer.
      [DocumentRefById (Document.id doc), LayerRefById (Layer.id layer)])
              someLayers)) = Some vals"
    and response: "batchGetPropertiesContinueResult res
           (refObjsOf optionalLayerProperties (map (\<lambda>layer. [DocumentRefById
               (Document.id doc), LayerRefById (Layer.id layer)])
              someLayers)) = Some (results, errors)"
    and kept: "\<forall>v \<in> set results. keepsHasOwnProperty v"
  shows "\<exists>descriptors.
         resetLayersCommand res doc someLayers =
           ([BatchGetProperties (refObjsOf layerProperties (map (\<lambda>layer.
               [DocumentRefById (Document.id doc), LayerRefById (Layer.id layer)])
              someLayers)) False,
             BatchGetProperties (refObjsOf optionalLayerProperties (map (\<lambda>layer.
                 [DocumentRefById (Document.id doc), LayerRefById (Layer.id layer)])
              someLayers)) True,
             Dispatch RESET_LAYERS
               (VObj [(''documentID'', VNum (int (Document.id doc))),
                      (''layers'',
                       VList (map (\<lambda>(index, layer).
                                     VObj [(''layerID'', VNum (int (Layer.id layer))),
                                           (''descriptor'',
                                            (if index < length descriptors
                                             then descriptors ! index
                                             else VUndefined))])
                                (enumerate 0 someLayers)))])],
            Resolved VUndefined)"
proof -
  from reduceProperty_total [of "[]" 0 vals]
  obtain allProperties
    where a: "forEachE reduceProperty (enumerate 0 vals) [] = Inr allProperties"
    by auto
  from reduceOptionalProperty_total [of "[]" 0 results] kept
  obtain allOptionalProperties
    where b: "forEachE reduceOptionalProperty (enumerate 0 results) [] = Inr
        allOptionalProperties"
    by auto
  let ?descriptors =
    "map (\<lambda>(index, properties).
            VObj (assign properties
                    (if index < length allOptionalProperties
                     then Some (allOptionalProperties ! index)
                     else None)))
       (enumerate 0 allProperties)"
  have "resetLayersCommand res doc someLayers =
           ([BatchGetProperties (refObjsOf layerProperties (map (\<lambda>layer.
               [DocumentRefById (Document.id doc), LayerRefById (Layer.id layer)])
              someLayers)) False,
             BatchGetProperties (refObjsOf optionalLayerProperties (map (\<lambda>layer.
                 [DocumentRefById (Document.id doc), LayerRefById (Layer.id layer)])
              someLayers)) True,
             Dispatch RESET_LAYERS
               (VObj [(''documentID'', VNum (int (Document.id doc))),
                      (''layers'',
                       VList (map (\<lambda>(index, layer).
                                     VObj [(''layerID'', VNum (int (Layer.id layer))),
                                           (''descriptor'',
                                            (if index < length ?descriptors
                                             then ?descriptors ! index
                                             else VUndefined))])
                                (enumerate 0 someLayers)))])],
            Resolved VUndefined)"
    by (simp add: resetLayersCommand_def getLayersByRef_def Let_def vals response a b)
  then show ?thesis by (rule exI)
qed




subsection \<open>Menu bar: the raw menu actions\<close>

lemma forEachE_writes:
  assumes step: "\<And>x s s'. x \<in> set xs \<Longrightarrow> f x s = Inr s' \<Longrightarrow> A s' = A s ++ map_of (rev (W x))"
    and run: "forEachE f xs s = Inr s'"
  shows "A s' = A s ++ map_of (rev (concat (map W xs)))"
  using assms
proof (induction xs arbitrary: s)
  case Nil
  then show ?case by simp
next
  case (Cons x xs)
  from Cons.prems(2) obtain s1 where s1: "f x s = Inr s1" and rest: "forEachE f xs s1 = Inr s'"
    by (auto split: sum.splits)
  have a: "A s1 = A s ++ map_of (rev (W x))"
    using Cons.prems(1) [of x s s1] s1 by simp
  have b: "A s' = A s1 ++ map_of (rev (concat (map W xs)))"
    using Cons.IH [OF _ rest] Cons.prems(1) by simp
  show ?case by (simp add: a b)
qed

lemma dotJoin_snoc:
  "dotJoin (path @ [prop]) = (if path = [] then prop else dotJoin path @ ''.'' @ prop)"
  by (induction path rule: dotJoin.induct) auto


lemma itemPath_prefixOf: "itemPath (prefixOf path) prop = dotJoin (path @ [prop])"
  by (simp add: itemPath_def prefixOf_def dotJoin_snoc)

lemma prefixOf_snoc: "Some (itemPath (prefixOf path) prop) = prefixOf (path @ [prop])"
  unfolding itemPath_prefixOf by (simp add: prefixOf_def)

lemma ownValue_absent:
  assumes "hasOwnProperty d k = Inr False"
  shows "ownValue d k = VUndefined"
proof (cases d)
  case (VObj kvs)
  with assms have "k \<notin> fst ` set kvs" by (simp split: if_splits)
  then have "map_of kvs k = None" by (simp add: map_of_eq_None_iff)
  with VObj show ?thesis by (simp add: ownValue_def)
qed (use assms in \<open>simp_all add: ownValue_def\<close>)

lemma ruleArrayOf_enableRules:
  "ruleArrayOf d = Inr ra \<Longrightarrow> ra = enableRules d"
  by (auto simp: ruleArrayOf_def enableRules_def ownValue_absent split: sum.splits if_splits jsval.splits)


lemma enablerWrites_concat:
  "enablerWrites (concat xss) = concat (map enablerWrites xss)"
  by (induction xss) (simp_all add: enablerWrites_def)

lemma actionWrites_concat:
  "actionWrites (concat xss) = concat (map actionWrites xss)"
  by (induction xss) (simp_all add: actionWrites_def)

lemma processMenuActions_writes:
  "\<forall>m m'. processMenuActions v (prefixOf path) m = Inr m' \<longrightarrow>
     enablerMap m' = enablerMap m ++ map_of (rev (enablerWrites (menuNodes v path)))
     \<and> actionMap m' = actionMap m ++ map_of (rev (actionWrites (menuNodes v path)))"
proof (induction v path rule: menuNodes.induct)
  case (1 rawActions path)
  define nodesOf where "nodesOf = (\<lambda>(prop, descriptor).
           (path @ [prop], descriptor) #
             (if hasOwnProperty descriptor ''$action'' = Inr False \<and> prop \<noteq> ''$enable-rule''
              then menuNodes descriptor (path @ [prop])
              else []))"
  define cb where "cb = (\<lambda>(prop, descriptor) maps.
           (case ruleArrayOf descriptor of
              Inl e \<Rightarrow> Inl e
            | Inr ruleArray \<Rightarrow>
                (case hasOwnProperty descriptor ''$action'' of
                   Inl e \<Rightarrow> Inl e
                 | Inr has \<Rightarrow>
                     (if has
                      then Inr (maps\<lparr>enablerMap := (enablerMap maps)
                                        (itemPath (prefixOf path) prop \<mapsto> ruleArray),
                                     actionMap := (actionMap maps)
                                        (itemPath (prefixOf path) prop \<mapsto> menuActionOf descriptor)\<rparr>)
                      else if prop \<noteq> ''$enable-rule''
                      then processMenuActions descriptor (Some (itemPath (prefixOf path) prop))
                             (maps\<lparr>enablerMap := (enablerMap maps)
                                      (itemPath (prefixOf path) prop \<mapsto> ruleArray)\<rparr>)
                      else Inr (maps\<lparr>enablerMap := (enablerMap maps)
                                        (itemPath (prefixOf path) prop \<mapsto> ruleArray)\<rparr>)))))"
  show ?case
  proof (intro allI impI)
    fix m m'
    assume run: "processMenuActions rawActions (prefixOf path) m = Inr m'"
    then have unf: "(if nonEmptyString rawActions then Inl RangeError
        else forEachE cb (forEachEntries rawActions) m) = Inr m'"
      by (subst (asm) processMenuActions.simps) (auto simp: cb_def split: if_splits)
    then have ne: "\<not> nonEmptyString rawActions"
      by (auto split: if_splits)
    with unf have loop: "forEachE cb (forEachEntries rawActions) m = Inr m'"
      by simp
    have nodes: "menuNodes rawActions path = concat (map nodesOf (forEachEntries rawActions))"
      using ne by (subst menuNodes.simps) (simp add: nodesOf_def)
    have step: "enablerMap s' = enablerMap s ++ map_of (rev (enablerWrites (nodesOf x)))
        \<and> actionMap s' = actionMap s ++ map_of (rev (actionWrites (nodesOf x)))"
      if x: "x \<in> set (forEachEntries rawActions)" and cbx: "cb x s = Inr s'" for x s s'
    proof -
      obtain key d where xd: "x = (key, d)" by (cases x)
      let ?id = "dotJoin (path @ [key])"
      from cbx xd obtain ra has where ra: "ruleArrayOf d = Inr ra"
        and has: "hasOwnProperty d ''$action'' = Inr has"
        by (auto simp: cb_def split: sum.splits)
      have ra_eq: "ra = enableRules d" using ra by (rule ruleArrayOf_enableRules)
      show ?thesis
      proof (cases has)
        case True
        with cbx xd ra has have s': "s' = s\<lparr>enablerMap := (enablerMap s)(?id \<mapsto> ra),
            actionMap := (actionMap s)(?id \<mapsto> menuActionOf d)\<rparr>"
          by (simp add: cb_def itemPath_prefixOf)
        from True has have n: "nodesOf x = [(path @ [key], d)]"
          by (simp add: nodesOf_def xd)
        from True has have "hasAction d" by (simp add: hasAction_def)
        then show ?thesis
          by (simp add: s' n enablerWrites_def actionWrites_def ra_eq)
      next
        case False
        with has have noact: "\<not> hasAction d" by (simp add: hasAction_def)
        show ?thesis
        proof (cases "key = ''$enable-rule''")
          case True
          with cbx xd ra has False have s': "s' = s\<lparr>enablerMap := (enablerMap s)(?id \<mapsto> ra)\<rparr>"
            by (simp add: cb_def itemPath_prefixOf)
          from True have n: "nodesOf x = [(path @ [key], d)]"
            by (simp add: nodesOf_def xd)
          show ?thesis
            using noact by (simp add: s' n enablerWrites_def actionWrites_def ra_eq)
        next
          case neq: False
          let ?s1 = "s\<lparr>enablerMap := (enablerMap s)(?id \<mapsto> ra)\<rparr>"
          have pre: "prefixOf (path @ [key]) = Some ?id"
            by (simp add: prefixOf_def)
          from cbx xd ra has False neq
          have rec: "processMenuActions d (prefixOf (path @ [key])) ?s1 = Inr s'"
            by (simp add: cb_def itemPath_prefixOf pre)
          from False has neq have n: "nodesOf x = (path @ [key], d) # menuNodes d (path @ [key])"
            by (simp add: nodesOf_def xd)
          have cond: "hasOwnProperty d ''$action'' = Inr False \<and> key \<noteq> ''$enable-rule''"
            using False has neq by simp
          from "1.IH" [OF ne x xd [symmetric] cond] rec
          have ih: "enablerMap s' = enablerMap ?s1 ++ map_of (rev (enablerWrites (menuNodes d (path @ [key]))))
            \<and> actionMap s' = actionMap ?s1 ++ map_of (rev (actionWrites (menuNodes d (path @ [key]))))"
            by blast
          show ?thesis
            using noact by (simp add: ih n enablerWrites_def actionWrites_def ra_eq)
        qed
      qed
    qed
    have e: "enablerMap m' = enablerMap m
        ++ map_of (rev (concat (map (\<lambda>x. enablerWrites (nodesOf x)) (forEachEntries rawActions))))"
      using loop by (rule forEachE_writes [rotated]) (simp add: step)
    have a: "actionMap m' = actionMap m
        ++ map_of (rev (concat (map (\<lambda>x. actionWrites (nodesOf x)) (forEachEntries rawActions))))"
      using loop by (rule forEachE_writes [rotated]) (simp add: step)
    show "enablerMap m' = enablerMap m ++ map_of (rev (enablerWrites (menuNodes rawActions path)))
      \<and> actionMap m' = actionMap m ++ map_of (rev (actionWrites (menuNodes rawActions path)))"
      by (simp add: nodes enablerWrites_concat actionWrites_concat e a comp_def)
  qed
qed


lemma menuNodes_mem:
  "(p, d) \<in> set (menuNodes v path) \<longleftrightarrow>
     \<not> nonEmptyString v \<and>
     (\<exists>k c. (k, c) \<in> set (forEachEntries v) \<and>
        ((p, d) = (path @ [k], c)
         \<or> (hasOwnProperty c ''$action'' = Inr False \<and> k \<noteq> ''$enable-rule''
            \<and> (p, d) \<in> set (menuNodes c (path @ [k])))))"
  by (subst menuNodes.simps) (auto split: if_splits)

lemma menuNodes_children:
  "(p, d) \<in> set (menuNodes v path) \<Longrightarrow> hasOwnProperty d ''$action'' = Inr False \<Longrightarrow>
   last p \<noteq> ''$enable-rule'' \<Longrightarrow> \<not> nonEmptyString d \<Longrightarrow>
   (k, c) \<in> set (forEachEntries d) \<Longrightarrow> (p @ [k], c) \<in> set (menuNodes v path)"
proof (induction v path rule: menuNodes.induct)
  case (1 rawActions path)
  from "1.prems"(1) obtain k0 c0 where ne: "\<not> nonEmptyString rawActions"
    and e0: "(k0, c0) \<in> set (forEachEntries rawActions)"
    and alt: "(p, d) = (path @ [k0], c0)
         \<or> (hasOwnProperty c0 ''$action'' = Inr False \<and> k0 \<noteq> ''$enable-rule''
            \<and> (p, d) \<in> set (menuNodes c0 (path @ [k0])))"
    by (auto simp: menuNodes_mem [of p d rawActions path])
  from alt show ?case
  proof
    assume eq: "(p, d) = (path @ [k0], c0)"
    with "1.prems" have cond: "hasOwnProperty c0 ''$action'' = Inr False \<and> k0 \<noteq> ''$enable-rule''"
      by simp
    have "(p @ [k], c) \<in> set (menuNodes c0 (path @ [k0]))"
      using "1.prems" eq by (subst menuNodes_mem) auto
    with ne e0 cond show ?thesis
      by (subst menuNodes_mem) blast
  next
    assume rec: "hasOwnProperty c0 ''$action'' = Inr False \<and> k0 \<noteq> ''$enable-rule''
            \<and> (p, d) \<in> set (menuNodes c0 (path @ [k0]))"
    then have "(p @ [k], c) \<in> set (menuNodes c0 (path @ [k0]))"
      using "1.IH" [OF ne e0 refl] "1.prems" by blast
    with ne e0 rec show ?thesis
      by (subst menuNodes_mem) blast
  qed
qed

lemma menuNodes_parent:
  "(p, d) \<in> set (menuNodes v path) \<Longrightarrow>
   (\<exists>k. p = path @ [k] \<and> (k, d) \<in> set (forEachEntries v))
   \<or> (\<exists>p' d' k. (p', d') \<in> set (menuNodes v path)
        \<and> hasOwnProperty d' ''$action'' = Inr False \<and> last p' \<noteq> ''$enable-rule''
        \<and> (k, d) \<in> set (forEachEntries d') \<and> p = p' @ [k])"
proof (induction v path rule: menuNodes.induct)
  case (1 rawActions path)
  from "1.prems"(1) obtain k0 c0 where ne: "\<not> nonEmptyString rawActions"
    and e0: "(k0, c0) \<in> set (forEachEntries rawActions)"
    and alt: "(p, d) = (path @ [k0], c0)
         \<or> (hasOwnProperty c0 ''$action'' = Inr False \<and> k0 \<noteq> ''$enable-rule''
            \<and> (p, d) \<in> set (menuNodes c0 (path @ [k0])))"
    by (auto simp: menuNodes_mem [of p d rawActions path])
  from alt show ?case
  proof
    assume "(p, d) = (path @ [k0], c0)"
    with e0 show ?thesis by auto
  next
    assume rec: "hasOwnProperty c0 ''$action'' = Inr False \<and> k0 \<noteq> ''$enable-rule''
            \<and> (p, d) \<in> set (menuNodes c0 (path @ [k0]))"
    have top: "(path @ [k0], c0) \<in> set (menuNodes rawActions path)"
      using ne e0 by (subst menuNodes_mem) blast
    have sub: "set (menuNodes c0 (path @ [k0])) \<subseteq> set (menuNodes rawActions path)"
    proof
      fix x assume x: "x \<in> set (menuNodes c0 (path @ [k0]))"
      obtain q e where xq: "x = (q, e)" by (cases x)
      have "(q, e) \<in> set (menuNodes rawActions path)"
        using ne e0 rec x xq by (subst menuNodes_mem) blast
      then show "x \<in> set (menuNodes rawActions path)" by (simp add: xq)
    qed
    from "1.IH" [OF ne e0 refl] rec
    consider (a) k where "p = (path @ [k0]) @ [k]" "(k, d) \<in> set (forEachEntries c0)"
      | (b) p' d' k where "(p', d') \<in> set (menuNodes c0 (path @ [k0]))"
        "hasOwnProperty d' ''$action'' = Inr False" "last p' \<noteq> ''$enable-rule''"
        "(k, d) \<in> set (forEachEntries d')" "p = p' @ [k]"
      by blast
    then show ?thesis
    proof cases
      case a
      with top rec show ?thesis by (intro disjI2) (rule exI [of _ "path @ [k0]"], auto)
    next
      case b
      with sub show ?thesis by blast
    qed
  qed
qed


lemma forEachE_success_elem:
  "forEachE f xs s = Inr s' \<Longrightarrow> x \<in> set xs \<Longrightarrow> \<exists>s1 s2. f x s1 = Inr s2"
proof (induction xs arbitrary: s)
  case Nil
  then show ?case by simp
next
  case (Cons a xs)
  from Cons.prems(1) obtain s1 where s1: "f a s = Inr s1" and rest: "forEachE f xs s1 = Inr s'"
    by (auto split: sum.splits)
  show ?case
  proof (cases "x = a")
    case True
    with s1 show ?thesis by blast
  next
    case False
    with Cons.prems(2) have "x \<in> set xs" by simp
    with Cons.IH [OF rest] show ?thesis by blast
  qed
qed

lemma processMenuActions_recursed_nodes:
  "\<forall>prefix m m'. processMenuActions v prefix m = Inr m' \<longrightarrow>
     (p, d) \<in> set (menuNodes v path) \<longrightarrow> hasOwnProperty d ''$action'' = Inr False \<longrightarrow>
     last p \<noteq> ''$enable-rule'' \<longrightarrow> \<not> nonEmptyString d"
proof (induction v path rule: menuNodes.induct)
  case (1 rawActions path)
  show ?case
  proof (intro allI impI)
    fix prefix m m'
    assume run: "processMenuActions rawActions prefix m = Inr m'"
      and mem: "(p, d) \<in> set (menuNodes rawActions path)"
      and noact: "hasOwnProperty d ''$action'' = Inr False"
      and last: "last p \<noteq> ''$enable-rule''"
    define cb where "cb = (\<lambda>(prop, descriptor) maps.
           (case ruleArrayOf descriptor of
              Inl e \<Rightarrow> Inl e
            | Inr ruleArray \<Rightarrow>
                (case hasOwnProperty descriptor ''$action'' of
                   Inl e \<Rightarrow> Inl e
                 | Inr has \<Rightarrow>
                     (if has
                      then Inr (maps\<lparr>enablerMap := (enablerMap maps)
                                        (itemPath prefix prop \<mapsto> ruleArray),
                                     actionMap := (actionMap maps)
                                        (itemPath prefix prop \<mapsto> menuActionOf descriptor)\<rparr>)
                      else if prop \<noteq> ''$enable-rule''
                      then processMenuActions descriptor (Some (itemPath prefix prop))
                             (maps\<lparr>enablerMap := (enablerMap maps)
                                      (itemPath prefix prop \<mapsto> ruleArray)\<rparr>)
                      else Inr (maps\<lparr>enablerMap := (enablerMap maps)
                                        (itemPath prefix prop \<mapsto> ruleArray)\<rparr>)))))"
    from run have unf: "(if nonEmptyString rawActions then Inl RangeError
        else forEachE cb (forEachEntries rawActions) m) = Inr m'"
      by (subst (asm) processMenuActions.simps) (auto simp: cb_def split: if_splits)
    then have ne: "\<not> nonEmptyString rawActions"
      by (auto split: if_splits)
    with unf have loop: "forEachE cb (forEachEntries rawActions) m = Inr m'"
      by simp
    from mem obtain k0 c0 where e0: "(k0, c0) \<in> set (forEachEntries rawActions)"
      and alt: "(p, d) = (path @ [k0], c0)
         \<or> (hasOwnProperty c0 ''$action'' = Inr False \<and> k0 \<noteq> ''$enable-rule''
            \<and> (p, d) \<in> set (menuNodes c0 (path @ [k0])))"
      by (auto simp: menuNodes_mem [of p d rawActions path])
    from alt noact last have cond: "hasOwnProperty c0 ''$action'' = Inr False \<and> k0 \<noteq> ''$enable-rule''"
      by auto
    from forEachE_success_elem [OF loop e0] obtain s1 s2 where "cb (k0, c0) s1 = Inr s2"
      by blast
    with cond obtain pre s3 where rec: "processMenuActions c0 pre s3 = Inr s2"
      by (auto simp: cb_def split: sum.splits)
    from alt show "\<not> nonEmptyString d"
    proof
      assume "(p, d) = (path @ [k0], c0)"
      with rec show ?thesis
        by (subst (asm) processMenuActions.simps) (auto split: if_splits)
    next
      assume "hasOwnProperty c0 ''$action'' = Inr False \<and> k0 \<noteq> ''$enable-rule''
            \<and> (p, d) \<in> set (menuNodes c0 (path @ [k0]))"
      with "1.IH" [OF ne e0 refl cond] rec noact last show ?thesis by blast
    qed
  qed
qed

lemma map_add_rev_distinct:
  assumes "distinct (map fst ws)"
  shows "(k, v) \<in> set ws \<Longrightarrow> (m ++ map_of (rev ws)) k = Some v"
    and "k \<notin> fst ` set ws \<Longrightarrow> (m ++ map_of (rev ws)) k = m k"
    and "dom (m ++ map_of (rev ws)) = dom m \<union> fst ` set ws"
proof -
  from assms have d: "distinct (map fst (rev ws))" by (simp add: rev_map [symmetric])
  show "(m ++ map_of (rev ws)) k = Some v" if "(k, v) \<in> set ws"
  proof -
    from that have "(k, v) \<in> set (rev ws)" by simp
    with d have "map_of (rev ws) k = Some v" by (rule map_of_is_SomeI)
    then show ?thesis by (simp add: map_add_Some_iff)
  qed
  show "(m ++ map_of (rev ws)) k = m k" if "k \<notin> fst ` set ws"
  proof -
    from that have "map_of (rev ws) k = None" by (simp add: map_of_eq_None_iff)
    then show ?thesis by (simp add: map_add_def)
  qed
  show "dom (m ++ map_of (rev ws)) = dom m \<union> fst ` set ws"
    by (auto simp: dom_map_of_conv_image_fst)
qed

lemma fst_enablerWrites: "map fst (enablerWrites nodes) = map (\<lambda>(path, d). dotJoin path) nodes"
  by (induction nodes) (auto simp: enablerWrites_def)

lemma fst_actionWrites:
  "map fst (actionWrites nodes)
     = map (\<lambda>(path, d). dotJoin path) (filter (\<lambda>(path, d). hasAction d) nodes)"
  by (induction nodes) (auto simp: actionWrites_def)

lemma fromJSONObjects_Inr:
  assumes "fromJSONObjects fromDescriptor menuObj menuActionsObj = Inr menuBar"
  shows "\<exists>maps. processMenuActions (VObj menuActionsObj) None
             \<lparr>actionMap = Map.empty, enablerMap = Map.empty\<rparr> = Inr maps
           \<and> enablers menuBar = enablerMap maps \<and> actions menuBar = actionMap maps"
  using assms
  by (auto simp: fromJSONObjects_def split: sum.splits if_splits jsval.splits)

lemma processMenuActions_unfold:
  "\<not> nonEmptyString rawActions \<Longrightarrow>
   processMenuActions rawActions prefix maps =
     forEachE
        (\<lambda>(prop, descriptor) maps.
           (case ruleArrayOf descriptor of
              Inl e \<Rightarrow> Inl e
            | Inr ruleArray \<Rightarrow>
                (case hasOwnProperty descriptor ''$action'' of
                   Inl e \<Rightarrow> Inl e
                 | Inr has \<Rightarrow>
                     (if has
                      then Inr (maps\<lparr>enablerMap := (enablerMap maps)
                                        (itemPath prefix prop \<mapsto> ruleArray),
                                     actionMap := (actionMap maps)
                                        (itemPath prefix prop \<mapsto> menuActionOf descriptor)\<rparr>)
                      else if prop \<noteq> ''$enable-rule''
                      then processMenuActions descriptor (Some (itemPath prefix prop))
                             (maps\<lparr>enablerMap := (enablerMap maps)
                                      (itemPath prefix prop \<mapsto> ruleArray)\<rparr>)
                      else Inr (maps\<lparr>enablerMap := (enablerMap maps)
                                        (itemPath prefix prop \<mapsto> ruleArray)\<rparr>)))))
        (forEachEntries rawActions) maps"
  by (subst processMenuActions.simps) simp

lemma menuNodes_unfold:
  "\<not> nonEmptyString rawActions \<Longrightarrow>
   menuNodes rawActions path =
     concat (map
        (\<lambda>(prop, descriptor).
           (path @ [prop], descriptor) #
             (if hasOwnProperty descriptor ''$action'' = Inr False \<and> prop \<noteq> ''$enable-rule''
              then menuNodes descriptor (path @ [prop])
              else []))
        (forEachEntries rawActions))"
  by (subst menuNodes.simps) simp

lemma forEachEntries_plain:
  "\<not> hasNumericLength (VObj kvs) \<Longrightarrow> forEachEntries (VObj kvs) = kvs"
  by (auto simp: hasNumericLength_def arrayLikeLength_def split: option.splits jsval.splits)



subsection \<open>Menu bar: the open documents\<close>

lemma showNat_small: "n < 10 \<Longrightarrow> showNat n = [digitChar n]"
  by (subst showNat.simps) simp

lemma showNat_large:
  "\<not> n < 10 \<Longrightarrow> showNat n = showNat (n div 10) @ [digitChar (n mod 10)]"
  by (subst showNat.simps) simp

lemma digitVal_digitChar: "d < 10 \<Longrightarrow> digitVal (digitChar d) = d"
proof -
  assume "d < 10"
  then have "d \<in> {0, 1, 2, 3, 4, 5, 6, 7, 8, 9}" by auto
  then show ?thesis
    by (auto simp: digitVal_def digitChar_def)
qed

lemma readNat_showNat: "readNat (showNat n) = n"
proof (induction n rule: showNat.induct)
  case (1 n)
  show ?case
  proof (cases "n < 10")
    case True
    then show ?thesis by (simp add: showNat_small readNat_def digitVal_digitChar)
  next
    case False
    have "n mod 10 < 10" by simp
    with False "1.IH" show ?thesis
      by (simp add: showNat_large readNat_def digitVal_digitChar)
  qed
qed

lemma showNat_inj: "showNat a = showNat b \<Longrightarrow> a = b"
  by (metis readNat_showNat)

lemma showNat_numeral:
  "showNat (numeral k) =
     (if (numeral k :: nat) < 10 then [digitChar (numeral k)]
      else showNat (numeral k div 10) @ [digitChar (numeral k mod 10)])"
  by (subst showNat.simps) simp

lemma showNat_0: "showNat 0 = ''0''"
  by (simp add: showNat_small digitChar_def)

lemma digitChar_1: "digitChar (Suc 0) = CHR ''1''"
  by (simp add: digitChar_def)

lemma showNat_1: "showNat (Suc 0) = ''1''"
  by (simp add: showNat_small digitChar_1)

lemma fold_openDocuments_actions:
  fixes key :: "nat \<Rightarrow> string"
  assumes inj: "\<And>a b. key a = key b \<Longrightarrow> a = b"
  shows "(\<forall>i < length ds. fold (\<lambda>(i, doc) acts. acts(key i \<mapsto> act doc)) (enumerate n ds) acts0
              (key (n + i)) = Some (act (ds ! i)))
       \<and> (\<forall>k. (\<forall>i < length ds. k \<noteq> key (n + i)) \<longrightarrow>
            fold (\<lambda>(i, doc) acts. acts(key i \<mapsto> act doc)) (enumerate n ds) acts0 k = acts0 k)"
proof (induction ds arbitrary: n acts0)
  case Nil
  then show ?case by simp
next
  case (Cons d ds)
  let ?f = "\<lambda>(i, doc) acts. acts(key i \<mapsto> act doc)"
  let ?acts1 = "acts0(key n \<mapsto> act d)"
  have unf: "fold ?f (enumerate n (d # ds)) acts0 = fold ?f (enumerate (Suc n) ds) ?acts1"
    by simp
  note IH = Cons.IH [of "Suc n" ?acts1]
  have a: "fold ?f (enumerate n (d # ds)) acts0 (key (n + i)) = Some (act ((d # ds) ! i))"
    if i: "i < length (d # ds)" for i
  proof (cases i)
    case 0
    have "\<forall>j < length ds. key n \<noteq> key (Suc n + j)"
      using inj by fastforce
    with IH have "fold ?f (enumerate (Suc n) ds) ?acts1 (key n) = ?acts1 (key n)"
      by blast
    with 0 show ?thesis by (simp add: unf del: fold_simps enumerate_simps)
  next
    case (Suc j)
    with i have "j < length ds" by simp
    with IH have "fold ?f (enumerate (Suc n) ds) ?acts1 (key (Suc n + j)) = Some (act (ds ! j))"
      by blast
    with Suc show ?thesis by (simp add: unf del: fold_simps enumerate_simps)
  qed
  have b: "fold ?f (enumerate n (d # ds)) acts0 k = acts0 k"
    if k: "\<forall>i < length (d # ds). k \<noteq> key (n + i)" for k
  proof -
    from k have k0: "k \<noteq> key n" by fastforce
    from k have "\<forall>j < length ds. k \<noteq> key (Suc n + j)" by fastforce
    with IH have "fold ?f (enumerate (Suc n) ds) ?acts1 k = ?acts1 k" by blast
    with k0 show ?thesis by (simp add: unf del: fold_simps enumerate_simps)
  qed
  from a b show ?case by blast
qed


lemma openDocument_key_inj:
  "''WINDOW.OPEN_DOCUMENT.'' @ showNat a = ''WINDOW.OPEN_DOCUMENT.'' @ showNat b \<Longrightarrow> a = b"
  by (simp add: showNat_inj)

text \<open>
  C6. For a menu bar with a \<open>WINDOW\<close> menu, \<open>updateOpenDocuments\<close> returns a menu bar whose
  window menu ends with one item per open document, in enumeration order; the item of the
  document at index \<open>i\<close> has the ID \<open>WINDOW.OPEN_DOCUMENT.i\<close>, the name of the document as
  its label, a shortcut with the key \<open>i + 1\<close> and the command and option modifiers when
  \<open>i < 9\<close> and no shortcut otherwise, and is checked (1, otherwise 0) exactly when the
  document equals the current document; the actions map each such ID to
  \<open>documents.selectDocument\<close> with the document as payload, and are otherwise unchanged.
\<close>

theorem updateOpenDocuments_items:
  assumes window: "getMenuItem this ''WINDOW'' = Some windowMenu"
  shows "\<exists>menuBar newWindowMenu openDocumentItems.
      updateOpenDocuments env this docs currentDocument = Inr menuBar
    \<and> rootMap menuBar ''WINDOW'' = Some newWindowMenu
    \<and> roots menuBar = immutableListSet (roots this)
          (findIndex (\<lambda>root. MenuItem.id root = ''WINDOW'') (roots this)) newWindowMenu
    \<and> MenuItem.submenu newWindowMenu =
          takeWhile (\<lambda>item. \<not> startsWith (MenuItem.id item) ''WINDOW.OPEN_DOCUMENT.'')
            (MenuItem.submenu windowMenu) @ openDocumentItems
    \<and> length openDocumentItems = length docs
    \<and> (\<forall>i < length docs.
          MenuItem.id (openDocumentItems ! i) = ''WINDOW.OPEN_DOCUMENT.'' @ showNat i
        \<and> MenuItem.itemID (openDocumentItems ! i) = showNat i
        \<and> MenuItem.label (openDocumentItems ! i) = Document.name (snd (docs ! i))
        \<and> MenuItem.command (openDocumentItems ! i) = ''WINDOW.OPEN_DOCUMENT.'' @ showNat i
        \<and> MenuItem.shortcut (openDocumentItems ! i) =
            (if i < 9
             then Some \<lparr>keyChar = showNat (i + 1),
                        modifiers = modifiersToBits env {Command, Option}\<rparr>
             else None)
        \<and> MenuItem.checked (openDocumentItems ! i) =
            (if Some (snd (docs ! i)) = currentDocument then 1 else 0)
        \<and> actions menuBar (''WINDOW.OPEN_DOCUMENT.'' @ showNat i) =
            Some \<lparr>dollar_action = VStr ''documents.selectDocument'',
                  dollar_payload = Some (DocumentPayload (snd (docs ! i)))\<rparr>)
    \<and> (\<forall>k. (\<forall>i < length docs. k \<noteq> ''WINDOW.OPEN_DOCUMENT.'' @ showNat i) \<longrightarrow>
          actions menuBar k = actions this k)"
proof -
  let ?key = "\<lambda>i. ''WINDOW.OPEN_DOCUMENT.'' @ showNat i"
  define items where "items = map (\<lambda>(i, doc).
                   newMenuItem (menuItemDefaults env)
                     (openDocumentDescriptor env currentDocument i doc))
                 (enumerate 0 (map snd docs))"
  define newActions where "newActions =
      fold (\<lambda>(i, doc) acts. acts(?key i \<mapsto> selectDocumentAction doc))
        (enumerate 0 (map snd docs)) (actions this)"
  define newWindowMenu where "newWindowMenu = mergeSubmenu windowMenu
      (takeWhile (\<lambda>item. \<not> startsWith (MenuItem.id item) ''WINDOW.OPEN_DOCUMENT.'')
         (MenuItem.submenu windowMenu) @ items)"
  define menuBar where "menuBar = this\<lparr>roots := immutableListSet (roots this)
          (findIndex (\<lambda>root. MenuItem.id root = ''WINDOW'') (roots this)) newWindowMenu,
        rootMap := (rootMap this)(''WINDOW'' \<mapsto> newWindowMenu),
        actions := newActions\<rparr>"
  have res: "updateOpenDocuments env this docs currentDocument = Inr menuBar"
    by (simp add: updateOpenDocuments_def window Let_def menuBar_def newWindowMenu_def
        newActions_def items_def)
  have len: "length items = length docs" by (simp add: items_def)
  have item: "items ! i = newMenuItem (menuItemDefaults env)
      (openDocumentDescriptor env currentDocument i (snd (docs ! i)))"
    if "i < length docs" for i
    using that by (simp add: items_def nth_enumerate_eq)
  from fold_openDocuments_actions [of ?key "map snd docs" selectDocumentAction 0 "actions this",
      OF openDocument_key_inj]
  have acts: "\<forall>i < length docs. newActions (?key i) = Some (selectDocumentAction (snd (docs ! i)))"
    and frame: "\<forall>k. (\<forall>i < length docs. k \<noteq> ?key i) \<longrightarrow> newActions k = actions this k"
    by (simp_all add: newActions_def)
  have actions_menuBar: "actions menuBar = newActions"
    by (simp add: menuBar_def)
  have fields: "MenuItem.id (items ! i) = ?key i
        \<and> MenuItem.itemID (items ! i) = showNat i
        \<and> MenuItem.label (items ! i) = Document.name (snd (docs ! i))
        \<and> MenuItem.command (items ! i) = ?key i
        \<and> MenuItem.shortcut (items ! i) =
            (if i < 9
             then Some \<lparr>keyChar = showNat (i + 1),
                        modifiers = modifiersToBits env {Command, Option}\<rparr>
             else None)
        \<and> MenuItem.checked (items ! i) =
            (if Some (snd (docs ! i)) = currentDocument then 1 else 0)
        \<and> actions menuBar (?key i) =
            Some \<lparr>dollar_action = VStr ''documents.selectDocument'',
                  dollar_payload = Some (DocumentPayload (snd (docs ! i)))\<rparr>"
    if i: "i < length docs" for i
  proof -
    from acts i have "actions menuBar (?key i) = Some (selectDocumentAction (snd (docs ! i)))"
      unfolding actions_menuBar by blast
    then show ?thesis
      unfolding item [OF i]
      by (simp add: newMenuItem_def openDocumentDescriptor_def
          switchDocModifiersMac_def switchDocModifiersWin_def selectDocumentAction_def)
  qed
  have sub: "MenuItem.submenu newWindowMenu =
      takeWhile (\<lambda>item. \<not> startsWith (MenuItem.id item) ''WINDOW.OPEN_DOCUMENT.'')
         (MenuItem.submenu windowMenu) @ items"
    by (simp add: newWindowMenu_def mergeSubmenu_def)
  have rm: "rootMap menuBar ''WINDOW'' = Some newWindowMenu"
    by (simp add: menuBar_def)
  have rt: "roots menuBar = immutableListSet (roots this)
          (findIndex (\<lambda>root. MenuItem.id root = ''WINDOW'') (roots this)) newWindowMenu"
    by (simp add: menuBar_def)
  from frame have frame': "\<forall>k. (\<forall>i < length docs. k \<noteq> ?key i) \<longrightarrow>
      actions menuBar k = actions this k"
    unfolding actions_menuBar .
  from res rm rt sub len fields frame' show ?thesis by blast
qed
theorem updateOpenDocuments_items_witness:
  "\<exists>menuBar newWindowMenu.
     updateOpenDocuments
       \<lparr>isMac = True,
        modifiersToBits =
          (\<lambda>ms. (if Command \<in> ms then 1 else 0) + (if Option \<in> ms then 4 else 0)),
        menuItemDefaults = MenuItem [] [] [] [] 0 None True [] []\<rparr>
       \<lparr>MenuBar.id = VStr ''main'',
        roots = [MenuItem ''WINDOW'' ''window'' ''Window'' [] 0 None True
                   [MenuItem ''WINDOW.MINIMIZE'' ''min'' ''Minimize'' [] 0 None True [] []] []],
        enablers = Map.empty,
        actions = Map.empty,
        rootMap = [''WINDOW'' \<mapsto> MenuItem ''WINDOW'' ''window'' ''Window'' [] 0 None True
                   [MenuItem ''WINDOW.MINIMIZE'' ''min'' ''Minimize'' [] 0 None True [] []] []]\<rparr>
       [(10, \<lparr>Document.id = 10, name = ''a.psd'',
               layers = \<lparr>all = [], selected = [], allSelected = [],
                         selectedLayersDeletable = False\<rparr>\<rparr>),
        (11, \<lparr>Document.id = 11, name = ''b.psd'',
               layers = \<lparr>all = [], selected = [], allSelected = [],
                         selectedLayersDeletable = False\<rparr>\<rparr>)]
       (Some \<lparr>Document.id = 11, name = ''b.psd'',
               layers = \<lparr>all = [], selected = [], allSelected = [],
                         selectedLayersDeletable = False\<rparr>\<rparr>)
     = Inr menuBar
   \<and> actions menuBar ''WINDOW.OPEN_DOCUMENT.1''
       = Some \<lparr>dollar_action = VStr ''documents.selectDocument'',
                dollar_payload = Some (DocumentPayload
                  \<lparr>Document.id = 11, name = ''b.psd'',
                    layers = \<lparr>all = [], selected = [], allSelected = [],
                              selectedLayersDeletable = False\<rparr>\<rparr>)\<rparr>
   \<and> rootMap menuBar ''WINDOW'' = Some newWindowMenu
   \<and> length (MenuItem.submenu newWindowMenu) = 3
   \<and> MenuItem.id (MenuItem.submenu newWindowMenu ! 2) = ''WINDOW.OPEN_DOCUMENT.1''
   \<and> MenuItem.label (MenuItem.submenu newWindowMenu ! 2) = ''b.psd''
   \<and> MenuItem.checked (MenuItem.submenu newWindowMenu ! 2) = 1
   \<and> MenuItem.checked (MenuItem.submenu newWindowMenu ! 1) = 0
   \<and> MenuItem.shortcut (MenuItem.submenu newWindowMenu ! 2)
       = Some \<lparr>keyChar = ''2'', modifiers = 5\<rparr>"
proof -
  let ?env = "\<lparr>isMac = True,
        modifiersToBits =
          (\<lambda>ms. (if Command \<in> ms then 1 else 0) + (if Option \<in> ms then 4 else 0)),
        menuItemDefaults = MenuItem [] [] [] [] 0 None True [] []\<rparr>"
  let ?w = "MenuItem ''WINDOW'' ''window'' ''Window'' [] 0 None True
                   [MenuItem ''WINDOW.MINIMIZE'' ''min'' ''Minimize'' [] 0 None True [] []] []"
  let ?mb = "\<lparr>MenuBar.id = VStr ''main'', roots = [?w], enablers = Map.empty,
        actions = Map.empty, rootMap = [''WINDOW'' \<mapsto> ?w]\<rparr>"
  let ?a = "\<lparr>Document.id = 10, name = ''a.psd'',
               layers = \<lparr>all = [], selected = [], allSelected = [],
                         selectedLayersDeletable = False\<rparr>\<rparr>"
  let ?b = "\<lparr>Document.id = 11, name = ''b.psd'',
               layers = \<lparr>all = [], selected = [], allSelected = [],
                         selectedLayersDeletable = False\<rparr>\<rparr>"
  let ?docs = "[(10::nat, ?a), (11, ?b)]"
  have window: "getMenuItem ?mb ''WINDOW'' = Some ?w"
    by (simp add: getMenuItem_def)
  let ?P = "\<lambda>menuBar newWindowMenu its.
      updateOpenDocuments ?env ?mb ?docs (Some ?b) = Inr menuBar
    \<and> rootMap menuBar ''WINDOW'' = Some newWindowMenu
    \<and> roots menuBar = immutableListSet (roots ?mb)
          (findIndex (\<lambda>root. MenuItem.id root = ''WINDOW'') (roots ?mb)) newWindowMenu
    \<and> MenuItem.submenu newWindowMenu =
          takeWhile (\<lambda>item. \<not> startsWith (MenuItem.id item) ''WINDOW.OPEN_DOCUMENT.'')
            (MenuItem.submenu ?w) @ its
    \<and> length its = length ?docs
    \<and> (\<forall>i < length ?docs.
          MenuItem.id (its ! i) = ''WINDOW.OPEN_DOCUMENT.'' @ showNat i
        \<and> MenuItem.itemID (its ! i) = showNat i
        \<and> MenuItem.label (its ! i) = Document.name (snd (?docs ! i))
        \<and> MenuItem.command (its ! i) = ''WINDOW.OPEN_DOCUMENT.'' @ showNat i
        \<and> MenuItem.shortcut (its ! i) =
            (if i < 9
             then Some \<lparr>keyChar = showNat (i + 1),
                        modifiers = modifiersToBits ?env {Command, Option}\<rparr>
             else None)
        \<and> MenuItem.checked (its ! i) =
            (if Some (snd (?docs ! i)) = Some ?b then 1 else 0)
        \<and> actions menuBar (''WINDOW.OPEN_DOCUMENT.'' @ showNat i) =
            Some \<lparr>dollar_action = VStr ''documents.selectDocument'',
                  dollar_payload = Some (DocumentPayload (snd (?docs ! i)))\<rparr>)
    \<and> (\<forall>k. (\<forall>i < length ?docs. k \<noteq> ''WINDOW.OPEN_DOCUMENT.'' @ showNat i) \<longrightarrow>
          actions menuBar k = actions ?mb k)"
  from updateOpenDocuments_items [OF window, of ?env ?docs "Some ?b"]
  have "\<exists>menuBar newWindowMenu its. ?P menuBar newWindowMenu its" .
  then obtain menuBar where "\<exists>newWindowMenu its. ?P menuBar newWindowMenu its"
    by (rule exE)
  then obtain newWindowMenu where "\<exists>its. ?P menuBar newWindowMenu its"
    by (rule exE)
  then obtain its where big: "?P menuBar newWindowMenu its"
    by (rule exE)
  note res = big [THEN conjunct1]
  note rm = big [THEN conjunct2, THEN conjunct1]
  note sub = big [THEN conjunct2, THEN conjunct2, THEN conjunct2, THEN conjunct1]
  note len = big [THEN conjunct2, THEN conjunct2, THEN conjunct2, THEN conjunct2, THEN conjunct1]
  note all = big [THEN conjunct2, THEN conjunct2, THEN conjunct2, THEN conjunct2,
      THEN conjunct2, THEN conjunct1]
  have sub': "MenuItem.submenu newWindowMenu
      = MenuItem ''WINDOW.MINIMIZE'' ''min'' ''Minimize'' [] 0 None True [] [] # its"
    by (simp add: sub startsWith_def)
  have lt1: "1 < length ?docs" by simp
  have lt0: "0 < length ?docs" by simp
  from all [rule_format, OF lt1] have i1: "MenuItem.id (its ! 1) = ''WINDOW.OPEN_DOCUMENT.1''
      \<and> MenuItem.label (its ! 1) = ''b.psd''
      \<and> MenuItem.shortcut (its ! 1) = Some \<lparr>keyChar = ''2'', modifiers = 5\<rparr>
      \<and> MenuItem.checked (its ! 1) = 1
      \<and> actions menuBar ''WINDOW.OPEN_DOCUMENT.1'' =
            Some \<lparr>dollar_action = VStr ''documents.selectDocument'',
                  dollar_payload = Some (DocumentPayload ?b)\<rparr>"
    by (simp add: showNat_small digitChar_def)
  from all [rule_format, OF lt0] have i0: "MenuItem.checked (its ! 0) = 0"
    by simp
  from len have l3: "length (MenuItem.submenu newWindowMenu) = 3"
    by (simp add: sub')
  from res rm l3 i1 i0 show ?thesis
    by (intro exI [of _ menuBar] exI [of _ newWindowMenu]) (simp add: sub')
qed

subsection \<open>Objects with a length\<close>

text \<open>
  An object with a length is iterated by index. With the length 0 no property of the
  object is visited; with the length 2, and no properties \<open>0\<close> and \<open>1\<close>, the callback
  gets \<open>undefined\<close>, and its first read of a property throws. In the same way
  \<open>_.pluck\<close> of an object with the length 2 has two elements.
\<close>

lemma processMenuActions_object_with_length:
  "processMenuActions
      (VObj [(''A'', VObj [(''length'', VNum 0), (''B'', VObj [(''$action'', VStr ''x'')])])])
      None \<lparr>actionMap = Map.empty, enablerMap = Map.empty\<rparr>
     = Inr \<lparr>actionMap = Map.empty, enablerMap = [''A'' \<mapsto> []]\<rparr>
   \<and> processMenuActions
      (VObj [(''A'', VObj [(''length'', VNum 2), (''B'', VObj [(''$action'', VStr ''x'')])])])
      None \<lparr>actionMap = Map.empty, enablerMap = Map.empty\<rparr>
     = Inl TypeError"
proof -
  have two: "[0..<2] = [0, Suc 0]" by (simp add: numeral_2_eq_2)
  show ?thesis
    by (simp add: processMenuActions_unfold nonEmptyString_def ruleArrayOf_def ownValue_def
        arrayLikeLength_def itemPath_def two showNat_0 showNat_1)
qed

lemma pluck_object_with_length:
  "pluck (VObj [(''length'', VNum 2)]) ''index'' = [VUndefined, VUndefined]
   \<and> pluck (VObj [(''a'', VObj [(''index'', VNum 3)]), (''b'', VNull)]) ''index''
       = [VNum 3, VUndefined]"
proof -
  have two: "[0..<2] = [0, Suc 0]" by (simp add: numeral_2_eq_2)
  show ?thesis
    by (simp add: pluck_def pluckElement_def arrayLikeLength_def two showNat_0 showNat_1)
qed

end
